theory Spec2Isabelle
  imports Main "HOL-Library.Word" "HOL-Library.Char_ord" "HOL-Library.List_Lexorder"
begin

unbundle bit_operations_syntax

section \<open>The process, its environment and what it leaves behind\<close>

text \<open>
  \<^verbatim>\<open>cmd/cindex/cindex.go\<close> is one function, \<^verbatim>\<open>main\<close>, whose work is a sequence of calls
  into the operating system, the index library and the regexp library. The model runs
  \<^verbatim>\<open>main\<close> against an environment that answers each of those calls and returns the
  list of calls made, in order, with the way the process ended.

  A Go process ends by returning from \<^verbatim>\<open>main\<close> (status 0, deferred calls run), by
  \<^verbatim>\<open>os.Exit\<close> (\<^verbatim>\<open>log.Fatal\<close> exits with status 1 and runs no deferred call) or by a
  panic (deferred calls run, status 2).
\<close>

datatype abort = OsExit | GoPanic

datatype outcome = Returned | Aborted abort

fun exit_code :: "outcome \<Rightarrow> nat" where
  "exit_code Returned = 0"
| "exit_code (Aborted OsExit) = 1"
| "exit_code (Aborted GoPanic) = 2"

text \<open>\<^verbatim>\<open>os.FileInfo\<close>, reduced to the two methods the walk callback calls.\<close>

record fileinfo =
  IsDir :: bool
  Mode :: "32 word"

text \<open>
  Go's \<^verbatim>\<open>os.ModeType\<close>: the bits of directories, symbolic links, named pipes, sockets,
  devices, character devices and irregular files.
\<close>

definition ModeType :: "32 word" where
  "ModeType = 0x8F280000"

text \<open>
  The calls into the index library; the calls on a writer carry the path the writer was
  created at. The calls into package \<^verbatim>\<open>os\<close>. In an event, the calls that start and
  stop the profile and close its file carry the path of that file.
\<close>

datatype libcall =
    index_Open string
  | index_Create string
  | ix_AddPaths string "string list"
  | ix_AddFile string string
  | ix_Flush string
  | index_Merge string string string

datatype oscall =
    os_Create string
  | os_Remove string
  | os_Rename string string
  | os_Stat string

datatype event =
    Print string
  | Log string
  | LogFatal string
  | Panic string
  | Os oscall "string option"
  | Lib libcall
  | StartCPUProfile string
  | StopCPUProfile string
  | Close string

text \<open>
  What \<^verbatim>\<open>filepath.Walk\<close> finds at a path: the result of \<^verbatim>\<open>os.Lstat\<close> (an error or the
  file's info), the error of reading the directory's names if any, and the entries by name.
\<close>

datatype fsnode = Node "string + fileinfo" "string option" fsforest
  and fsforest = FNil | FCons string fsnode fsforest

fun lstat :: "fsnode \<Rightarrow> string + fileinfo" where
  "lstat (Node st rd ents) = st"

type_synonym regexp = "string \<Rightarrow> int"

text \<open>
  The environment answers every call that leaves \<^verbatim>\<open>cindex.go\<close>:
  \<^item> \<open>index_File\<close>: \<^verbatim>\<open>index.File()\<close>, the master index's path;
  \<^item> \<open>Paths\<close>: \<^verbatim>\<open>index.Open(p).Paths()\<close>;
  \<^item> \<open>lib_abort\<close>: whether a call into the index library ends the process instead of
    returning (none of them returns an error to \<^verbatim>\<open>main\<close>);
  \<^item> \<open>os_err\<close>: the error a call into package \<^verbatim>\<open>os\<close> returns, if any;
  \<^item> \<open>filepath_Abs\<close>: \<^verbatim>\<open>filepath.Abs\<close>, \<open>Inl\<close> the error;
  \<^item> \<open>regexp_Compile\<close>: \<^verbatim>\<open>regexp.Compile\<close>, \<open>Inl\<close> the error, \<open>Inr\<close> the compiled
    pattern as the function \<^verbatim>\<open>r.MatchString(p, true, true)\<close>;
  \<^item> \<open>tree\<close>: the file tree found at a root.
\<close>

record env =
  index_File :: string
  Paths :: "string \<Rightarrow> string list"
  lib_abort :: "libcall \<Rightarrow> abort option"
  os_err :: "oscall \<Rightarrow> string option"
  filepath_Abs :: "string \<Rightarrow> string + string"
  regexp_Compile :: "string \<Rightarrow> string + regexp"
  tree :: "string \<Rightarrow> fsnode"

text \<open>The command line: the flags, the \<^verbatim>\<open>-exclude\<close> values in order, the positional arguments.\<close>

record flags =
  listFlag :: bool
  resetFlag :: bool
  verboseFlag :: bool
  cpuProfile :: string
  exclude :: "string list"
  args :: "string list"

type_synonym run = "event list \<times> outcome"

text \<open>
  The rest of the program is passed along as a run: \<open>emit\<close> puts events before it,
  \<open>call\<close> a library call that may end the process, \<open>os\<close> a call into package
  \<^verbatim>\<open>os\<close> whose error \<^verbatim>\<open>main\<close> does not look at.
\<close>

definition emit :: "event list \<Rightarrow> run \<Rightarrow> run" where
  "emit evs k = (evs @ fst k, snd k)"

definition call :: "env \<Rightarrow> libcall \<Rightarrow> run \<Rightarrow> run" where
  "call e c k = (case lib_abort e c of Some a \<Rightarrow> ([Lib c], Aborted a) | None \<Rightarrow> emit [Lib c] k)"

definition os :: "env \<Rightarrow> oscall \<Rightarrow> run \<Rightarrow> run" where
  "os e c k = emit [Os c (os_err e c)] k"

text \<open>Deferred calls run when the body returns or panics, not when it calls \<^verbatim>\<open>os.Exit\<close>.\<close>

definition deferred :: "event list \<Rightarrow> run \<Rightarrow> run" where
  "deferred ds body = (if snd body = Aborted OsExit then body else (fst body @ ds, snd body))"

section \<open>Path resolution (lines 122 to 137)\<close>

text \<open>
  \<^verbatim>\<open>
  for i, arg := range args {
      a, err := filepath.Abs(arg)
      if err != nil { log.Printf("%s: %s", arg, err); args[i] = ""; continue }
      args[i] = a
  }
  sort.Strings(args)
  for len(args) > 0 && args[0] == "" { args = args[1:] }
  \<close>
  Go compares strings byte by byte, which is the lexicographic order of \<open>char list\<close>.
\<close>

fun absArgs :: "(string \<Rightarrow> string + string) \<Rightarrow> string list \<Rightarrow> event list \<times> string list" where
  "absArgs A [] = ([], [])"
| "absArgs A (arg # rest) =
     (case A arg of
        Inl err \<Rightarrow> (Log (arg @ '': '' @ err) # fst (absArgs A rest), [] # snd (absArgs A rest))
      | Inr a \<Rightarrow> (fst (absArgs A rest), a # snd (absArgs A rest)))"

fun dropEmpty :: "string list \<Rightarrow> string list" where
  "dropEmpty [] = []"
| "dropEmpty (a # rest) = (if a = [] then dropEmpty rest else a # rest)"

definition resolve :: "(string \<Rightarrow> string + string) \<Rightarrow> string list \<Rightarrow> string list" where
  "resolve A as = dropEmpty (sort (snd (absArgs A as)))"

section \<open>Exclusion patterns (lines 79 to 86 and 149 to 169)\<close>

definition baseline :: "string list" where
  "baseline = [''/.git$'', ''/node_modules'', ''/bazel-(bin|out|testlogs)'', ''/venv'',
     ''/.csearchindex'', ''.*/go/pkg/mod'']"

text \<open>The baseline is appended to the empty list before the flags are parsed.\<close>

definition excludePatterns :: "flags \<Rightarrow> string list" where
  "excludePatterns fl = baseline @ exclude fl"

text \<open>The loop of line 150 stops at the first pattern that does not compile.\<close>

fun compileAll :: "(string \<Rightarrow> string + regexp) \<Rightarrow> string list \<Rightarrow> string + regexp list" where
  "compileAll C [] = Inr []"
| "compileAll C (p # ps) =
     (case C p of
        Inl err \<Rightarrow> Inl err
      | Inr r \<Rightarrow> (case compileAll C ps of Inl err \<Rightarrow> Inl err | Inr rs \<Rightarrow> Inr (r # rs)))"

fun anyRegexpMatches :: "regexp list \<Rightarrow> string \<Rightarrow> bool" where
  "anyRegexpMatches [] p = False"
| "anyRegexpMatches (r # rs) p = (if r p > 0 then True else anyRegexpMatches rs p)"

section \<open>The walk (lines 174 to 203)\<close>

text \<open>
  \<^verbatim>\<open>filepath.Split\<close> on a system whose separator is \<^verbatim>\<open>/\<close>: the index runs down from
  the end to the last separator; \<open>lastSep p n\<close> is the length of the directory part.
\<close>

fun lastSep :: "string \<Rightarrow> nat \<Rightarrow> nat" where
  "lastSep p 0 = 0"
| "lastSep p (Suc i) = (if p ! i = CHR ''/'' then Suc i else lastSep p i)"

definition Split :: "string \<Rightarrow> string \<times> string" where
  "Split p = (take (lastSep p (length p)) p, drop (lastSep p (length p)) p)"

datatype cbresult = RetNil | RetSkipDir | RetAbort abort

text \<open>
  The callback of line 176. A missing file info is Go's nil interface: line 178 calls
  \<^verbatim>\<open>info.IsDir()\<close> first, which panics on nil. Line 198's \<^verbatim>\<open>info != nil\<close> is reached
  with a file info only.
\<close>

definition walkFn ::
  "env \<Rightarrow> bool \<Rightarrow> regexp list \<Rightarrow> string \<Rightarrow> string \<Rightarrow> fileinfo option \<Rightarrow> string option
     \<Rightarrow> event list \<times> cbresult" where
  "walkFn e verbose res file path info err =
     (case info of
        None \<Rightarrow> ([Panic ''invalid memory address or nil pointer dereference''], RetAbort GoPanic)
      | Some i \<Rightarrow>
          if IsDir i \<and> anyRegexpMatches res path then
            ((if verbose then [Log (''skipping dir (due to exclusion): '' @ path @ [CHR 0x0A])]
              else []), RetSkipDir)
          else
            let elem = snd (Split path) in
            if elem \<noteq> [] \<and> (hd elem = CHR ''.'' \<or> hd elem = CHR ''#'' \<or> hd elem = CHR ''~''
                 \<or> last elem = CHR ''~'') then
              (if IsDir i then ([], RetSkipDir) else ([], RetNil))
            else
              (case err of
                 Some er \<Rightarrow> ([Log (path @ '': '' @ er)], RetNil)
               | None \<Rightarrow>
                   if Mode i AND ModeType = 0 then
                     (case lib_abort e (ix_AddFile file path) of
                        Some a \<Rightarrow> ([Lib (ix_AddFile file path)], RetAbort a)
                      | None \<Rightarrow> ([Lib (ix_AddFile file path)], RetNil))
                   else ([], RetNil)))"

text \<open>
  \<^verbatim>\<open>filepath.Walk\<close> as Go's library documents and implements it, for a callback that
  returns nil or \<^verbatim>\<open>SkipDir\<close> or does not return. \<open>Join\<close> is \<^verbatim>\<open>filepath.Join\<close> of a
  clean directory path and one name.
\<close>

definition Join :: "string \<Rightarrow> string \<Rightarrow> string" where
  "Join dir name = (if dir \<noteq> [] \<and> last dir = CHR ''/'' then dir @ name else dir @ ''/'' @ name)"

type_synonym walkfn = "string \<Rightarrow> fileinfo option \<Rightarrow> string option \<Rightarrow> event list \<times> cbresult"

fun walk :: "walkfn \<Rightarrow> string \<Rightarrow> fileinfo \<Rightarrow> fsnode \<Rightarrow> event list \<times> cbresult"
  and walkNames :: "walkfn \<Rightarrow> string \<Rightarrow> fsforest \<Rightarrow> event list \<times> cbresult" where
  "walk fn path info (Node st rd ents) =
     (if \<not> IsDir info then fn path (Some info) None
      else
        (case fn path (Some info) rd of
           (t, r) \<Rightarrow>
             if rd \<noteq> None \<or> r \<noteq> RetNil then (t, r)
             else (case walkNames fn path ents of (t', r') \<Rightarrow> (t @ t', r'))))"
| "walkNames fn path FNil = ([], RetNil)"
| "walkNames fn path (FCons name nd rest) =
     (case lstat nd of
        Inl err \<Rightarrow>
          (case fn (Join path name) None (Some err) of
             (t, RetAbort a) \<Rightarrow> (t, RetAbort a)
           | (t, _) \<Rightarrow> (case walkNames fn path rest of (t', r') \<Rightarrow> (t @ t', r')))
      | Inr fileInfo \<Rightarrow>
          (case walk fn (Join path name) fileInfo nd of
             (t, RetAbort a) \<Rightarrow> (t, RetAbort a)
           | (t, RetSkipDir) \<Rightarrow>
               if \<not> IsDir fileInfo then (t, RetSkipDir)
               else (case walkNames fn path rest of (t', r') \<Rightarrow> (t @ t', r'))
           | (t, RetNil) \<Rightarrow> (case walkNames fn path rest of (t', r') \<Rightarrow> (t @ t', r'))))"

definition Walk :: "walkfn \<Rightarrow> string \<Rightarrow> fsnode \<Rightarrow> event list \<times> cbresult" where
  "Walk fn root nd =
     (case lstat nd of
        Inl err \<Rightarrow> fn root None (Some err)
      | Inr info \<Rightarrow> walk fn root info nd)"

text \<open>The loop of line 174; \<^verbatim>\<open>main\<close> drops what \<^verbatim>\<open>filepath.Walk\<close> returns.\<close>

fun walkRoots :: "env \<Rightarrow> bool \<Rightarrow> regexp list \<Rightarrow> string \<Rightarrow> string list \<Rightarrow> run \<Rightarrow> run" where
  "walkRoots e verbose res file [] k = k"
| "walkRoots e verbose res file (arg # rest) k =
     emit [Log (''index '' @ arg)]
       (case Walk (walkFn e verbose res file) arg (tree e arg) of
          (t, RetAbort a) \<Rightarrow> (t, Aborted a)
        | (t, _) \<Rightarrow> emit t (walkRoots e verbose res file rest k))"

section \<open>\<^verbatim>\<open>main\<close> (lines 78 to 215)\<close>

text \<open>Lines 207 to 214: the merge, when the run is not a reset, and the last log line.\<close>

definition finish :: "env \<Rightarrow> bool \<Rightarrow> string \<Rightarrow> string \<Rightarrow> run" where
  "finish e reset master file =
     (if \<not> reset then
        emit [Log (''merge '' @ master @ '' '' @ file)]
          (call e (index_Merge (file @ ''~'') master file)
            (os e (os_Remove file)
              (os e (os_Rename (file @ ''~'') master)
                ([Log ''done''], Returned))))
      else ([Log ''done''], Returned))"

text \<open>
  Lines 122 to 169, from the arguments to the compiled patterns, and then the indexing.
  Line 142 sets the reset flag when \<^verbatim>\<open>os.Stat\<close> of the master returns an error; line
  146 appends \<^verbatim>\<open>~\<close> to the staging file's path when the flag is not set.
\<close>

definition resetMode :: "env \<Rightarrow> flags \<Rightarrow> bool" where
  "resetMode e fl = (resetFlag fl \<or> os_err e (os_Stat (index_File e)) \<noteq> None)"

definition stagingFile :: "env \<Rightarrow> flags \<Rightarrow> string" where
  "stagingFile e fl = (if resetMode e fl then index_File e else index_File e @ ''~'')"

text \<open>Lines 171 to 214: the writer, the recorded roots, the walks, the flush and the rest.\<close>

definition indexing :: "env \<Rightarrow> flags \<Rightarrow> regexp list \<Rightarrow> string list \<Rightarrow> run" where
  "indexing e fl res roots =
     call e (index_Create (stagingFile e fl))
       (call e (ix_AddPaths (stagingFile e fl) roots)
         (walkRoots e (verboseFlag fl) res (stagingFile e fl) roots
           (emit [Log ''flush index'']
             (call e (ix_Flush (stagingFile e fl))
               (finish e (resetMode e fl) (index_File e) (stagingFile e fl))))))"

definition build :: "env \<Rightarrow> flags \<Rightarrow> string list \<Rightarrow> run" where
  "build e fl as =
     emit (fst (absArgs (filepath_Abs e) as))
       (os e (os_Stat (index_File e))
         (case compileAll (regexp_Compile e) (excludePatterns fl) of
            Inl err \<Rightarrow> ([Panic err], Aborted GoPanic)
          | Inr res \<Rightarrow> indexing e fl res (resolve (filepath_Abs e) as)))"

text \<open>Lines 111 to 120: reset with no path removes the index; no path reads the paths of the index.\<close>

definition body :: "env \<Rightarrow> flags \<Rightarrow> run" where
  "body e fl =
     (if resetFlag fl \<and> args fl = [] then os e (os_Remove (index_File e)) ([], Returned)
      else if args fl = [] then
        call e (index_Open (index_File e)) (build e fl (Paths e (index_File e)))
      else build e fl (args fl))"

text \<open>
  Lines 93 to 109: the list flag returns before anything else; then the profile, with
  its two deferred calls, which run last in first out.
\<close>

definition main :: "env \<Rightarrow> flags \<Rightarrow> run" where
  "main e fl =
     (if listFlag fl then
        call e (index_Open (index_File e))
          (map (\<lambda>p. Print (p @ [CHR 0x0A])) (Paths e (index_File e)), Returned)
      else if cpuProfile fl \<noteq> [] then
        (case os_err e (os_Create (cpuProfile fl)) of
           Some err \<Rightarrow> ([Os (os_Create (cpuProfile fl)) (Some err), LogFatal err], Aborted OsExit)
         | None \<Rightarrow>
             emit [Os (os_Create (cpuProfile fl)) None, StartCPUProfile (cpuProfile fl)]
               (deferred [StopCPUProfile (cpuProfile fl), Close (cpuProfile fl)] (body e fl)))
      else body e fl)"

section \<open>Vocabulary of the properties\<close>

text \<open>
  The paths an event creates, writes, removes or replaces. The calls on a writer write
  the file the writer was created at, and the merge writes its first argument, as the
  interface of the index library is used by \<^verbatim>\<open>main\<close>. A call into package \<^verbatim>\<open>os\<close>
  that returns an error changes nothing; reading (\<^verbatim>\<open>index.Open\<close>, \<^verbatim>\<open>os.Stat\<close>, the
  inputs of \<^verbatim>\<open>index.Merge\<close>) writes nothing.
\<close>

fun writes :: "event \<Rightarrow> string list" where
  "writes (Os (os_Create p) None) = [p]"
| "writes (Os (os_Remove p) None) = [p]"
| "writes (Os (os_Rename src dst) None) = [src, dst]"
| "writes (Os c r) = []"
| "writes (Lib (index_Open p)) = []"
| "writes (Lib (index_Create p)) = [p]"
| "writes (Lib (ix_AddPaths f ps)) = [f]"
| "writes (Lib (ix_AddFile f p)) = [f]"
| "writes (Lib (ix_Flush f)) = [f]"
| "writes (Lib (index_Merge dst src1 src2)) = [dst]"
| "writes (StartCPUProfile p) = [p]"
| "writes (StopCPUProfile p) = [p]"
| "writes (Close p) = [p]"
| "writes (Print s) = []"
| "writes (Log s) = []"
| "writes (LogFatal s) = []"
| "writes (Panic s) = []"

definition touching :: "string \<Rightarrow> event list \<Rightarrow> event list" where
  "touching p t = filter (\<lambda>ev. p \<in> set (writes ev)) t"

text \<open>
  The place of an event's first occurrence, and one event occurring before another.
\<close>

definition pos :: "event \<Rightarrow> event list \<Rightarrow> nat" where
  "pos ev t = length (takeWhile (\<lambda>x. x \<noteq> ev) t)"

definition precedes :: "event \<Rightarrow> event \<Rightarrow> event list \<Rightarrow> bool" where
  "precedes a b t = (a \<in> set t \<and> b \<in> set t \<and> pos a t < pos b t)"

text \<open>
  The events of the profile around the body, when profiling is on.
\<close>

definition profileStart :: "flags \<Rightarrow> event list" where
  "profileStart fl =
     (if cpuProfile fl = [] then []
      else [Os (os_Create (cpuProfile fl)) None, StartCPUProfile (cpuProfile fl)])"

definition profileStop :: "flags \<Rightarrow> event list" where
  "profileStop fl =
     (if cpuProfile fl = [] then []
      else [StopCPUProfile (cpuProfile fl), Close (cpuProfile fl)])"

text \<open>
  What the path resolver computes, said without the loop: each argument's absolute path,
  or the empty string where \<^verbatim>\<open>filepath.Abs\<close> fails, and the line logged for a failure.
\<close>

definition blanked :: "(string \<Rightarrow> string + string) \<Rightarrow> string \<Rightarrow> string" where
  "blanked A arg = (case A arg of Inl err \<Rightarrow> [] | Inr a \<Rightarrow> a)"

definition reported :: "(string \<Rightarrow> string + string) \<Rightarrow> string \<Rightarrow> event list" where
  "reported A arg = (case A arg of Inl err \<Rightarrow> [Log (arg @ '': '' @ err)] | Inr a \<Rightarrow> [])"

text \<open>
  The message of the panic of a nil dereference. The events the walk callback can leave,
  for a writer created at \<open>f\<close>, and the events the body of \<^verbatim>\<open>main\<close> can leave: log
  lines, panics, library calls and calls into package \<^verbatim>\<open>os\<close> other than
  \<^verbatim>\<open>os.Create\<close>.
\<close>

definition nilDereference :: string where
  "nilDereference = ''invalid memory address or nil pointer dereference''"

fun walkEvent :: "string \<Rightarrow> event \<Rightarrow> bool" where
  "walkEvent f (Log s) = True"
| "walkEvent f (Panic s) = (s = ''invalid memory address or nil pointer dereference'')"
| "walkEvent f (Lib (ix_AddFile f' p)) = (f' = f)"
| "walkEvent f ev = False"

fun bodyEvent :: "event \<Rightarrow> bool" where
  "bodyEvent (Log s) = True"
| "bodyEvent (Panic s) = True"
| "bodyEvent (Os (os_Create p) r) = False"
| "bodyEvent (Os c r) = True"
| "bodyEvent (Lib c) = True"
| "bodyEvent ev = False"

text \<open>
  The loop over the roots on its own, with nothing after it. The arguments the run works
  on: those given, or the paths recorded in the index.
\<close>

definition walked :: "env \<Rightarrow> bool \<Rightarrow> regexp list \<Rightarrow> string \<Rightarrow> string list \<Rightarrow> run" where
  "walked e v res file roots = walkRoots e v res file roots ([], Returned)"

definition givenArgs :: "env \<Rightarrow> flags \<Rightarrow> string list" where
  "givenArgs e fl = (if args fl = [] then Paths e (index_File e) else args fl)"

text \<open>
  The events of a build run up to the flush, given the compiled patterns, and the events
  of an incremental run from the flush to the last log line.
\<close>

definition beforeFlush :: "env \<Rightarrow> flags \<Rightarrow> regexp list \<Rightarrow> event list" where
  "beforeFlush e fl res =
     profileStart fl
     @ (if args fl = [] then [Lib (index_Open (index_File e))] else [])
     @ concat (map (reported (filepath_Abs e)) (givenArgs e fl))
     @ Os (os_Stat (index_File e)) (os_err e (os_Stat (index_File e)))
     # Lib (index_Create (stagingFile e fl))
     # Lib (ix_AddPaths (stagingFile e fl) (resolve (filepath_Abs e) (givenArgs e fl)))
     # fst (walked e (verboseFlag fl) res (stagingFile e fl)
           (resolve (filepath_Abs e) (givenArgs e fl)))
     @ [Log ''flush index'']"

definition publish :: "env \<Rightarrow> event list" where
  "publish e =
     [Lib (ix_Flush (index_File e @ ''~'')),
      Log (''merge '' @ index_File e @ '' '' @ index_File e @ ''~''),
      Lib (index_Merge (index_File e @ ''~~'') (index_File e) (index_File e @ ''~'')),
      Os (os_Remove (index_File e @ ''~'')) (os_err e (os_Remove (index_File e @ ''~''))),
      Os (os_Rename (index_File e @ ''~~'') (index_File e))
        (os_err e (os_Rename (index_File e @ ''~~'') (index_File e))),
      Log ''done'']"

section \<open>Example environments\<close>

text \<open>
  A working directory \<^verbatim>\<open>/w\<close> holding a tree \<^verbatim>\<open>src\<close>, an index at \<^verbatim>\<open>/idx\<close> that
  records \<^verbatim>\<open>/w/src\<close>, a library whose calls all return, and a pattern compiler that
  rejects \<^verbatim>\<open>(\<close> and whose compiled patterns match nothing. \<open>absNoCwd\<close> is
  \<^verbatim>\<open>filepath.Abs\<close> when the working directory cannot be found.
\<close>

definition absUnder :: "string \<Rightarrow> string \<Rightarrow> string + string" where
  "absUnder cwd p = (if p \<noteq> [] \<and> hd p = CHR ''/'' then Inr p else Inr (cwd @ ''/'' @ p))"

definition absNoCwd :: "string \<Rightarrow> string + string" where
  "absNoCwd p =
     (if p \<noteq> [] \<and> hd p = CHR ''/'' then Inr p else Inl ''getwd: no such file or directory'')"

definition matchNothing :: regexp where
  "matchNothing s = 0"

definition compileStub :: "string \<Rightarrow> string + regexp" where
  "compileStub p = (if p = ''('' then Inl ''missing closing )'' else Inr matchNothing)"

definition regularFile :: fileinfo where
  "regularFile = \<lparr>IsDir = False, Mode = 0x1A4\<rparr>"

definition directory :: fileinfo where
  "directory = \<lparr>IsDir = True, Mode = 0x800001ED\<rparr>"

definition srcTree :: fsnode where
  "srcTree = Node (Inr directory) None
     (FCons ''a.go'' (Node (Inr regularFile) None FNil)
     (FCons ''.git'' (Node (Inr directory) None
        (FCons ''config'' (Node (Inr regularFile) None FNil) FNil))
     (FCons ''b.go~'' (Node (Inr regularFile) None FNil)
     (FCons ''sub'' (Node (Inr directory) (Some ''open /w/src/sub: permission denied'') FNil)
     (FCons ''z.go'' (Node (Inr regularFile) None FNil) FNil)))))"

definition missing :: "string \<Rightarrow> fsnode" where
  "missing p = Node (Inl (''lstat '' @ p @ '': no such file or directory'')) None FNil"

definition treeStub :: "string \<Rightarrow> fsnode" where
  "treeStub root = (if root = ''/w/src'' then srcTree else missing root)"

definition noAbort :: "libcall \<Rightarrow> abort option" where
  "noAbort c = None"

definition noErr :: "oscall \<Rightarrow> string option" where
  "noErr c = None"

definition recorded :: "string \<Rightarrow> string list" where
  "recorded p = [''/w/src'']"

definition envPlain :: env where
  "envPlain = \<lparr>index_File = ''/idx'', Paths = recorded, lib_abort = noAbort,
     os_err = noErr, filepath_Abs = absUnder ''/w'', regexp_Compile = compileStub,
     tree = treeStub\<rparr>"

text \<open>
  The same with no index yet: \<^verbatim>\<open>os.Stat\<close> fails and \<^verbatim>\<open>index.Open\<close> exits.
\<close>

definition noIndexErr :: "oscall \<Rightarrow> string option" where
  "noIndexErr c = (if c = os_Stat ''/idx'' then Some ''stat /idx: no such file or directory''
     else None)"

definition noIndexAbort :: "libcall \<Rightarrow> abort option" where
  "noIndexAbort c = (if c = index_Open ''/idx'' then Some OsExit else None)"

definition envNoIndex :: env where
  "envNoIndex = envPlain\<lparr>os_err := noIndexErr, lib_abort := noIndexAbort\<rparr>"

text \<open>
  The same with a removal and a rename that fail, and with a merge that exits.
\<close>

definition renameErr :: "oscall \<Rightarrow> string option" where
  "renameErr c = (if c = os_Rename ''/idx~~'' ''/idx'' then Some ''rename: invalid cross-device link''
     else if c = os_Remove ''/idx~'' then Some ''remove /idx~: permission denied''
     else None)"

definition envRenameFails :: env where
  "envRenameFails = envPlain\<lparr>os_err := renameErr\<rparr>"

definition mergeAbort :: "libcall \<Rightarrow> abort option" where
  "mergeAbort c = (if c = index_Merge ''/idx~~'' ''/idx'' ''/idx~'' then Some OsExit else None)"

definition envMergeFails :: env where
  "envMergeFails = envPlain\<lparr>lib_abort := mergeAbort\<rparr>"

text \<open>
  The same with \<^verbatim>\<open>/w/src\<close> a directory whose names can be read but whose entries cannot
  be looked up (read permission without search permission).
\<close>

definition lockedTree :: "string \<Rightarrow> fsnode" where
  "lockedTree root = Node (Inr directory) None
     (FCons ''a.go'' (Node (Inl ''lstat /w/src/a.go: permission denied'') None FNil) FNil)"

definition envLocked :: env where
  "envLocked = envPlain\<lparr>tree := lockedTree\<rparr>"

text \<open>
  Command lines: one root; one root that does not exist; no argument; the list flag with
  a profile; a pattern that does not compile, with a profile; the same pattern with a
  reset and no path.
\<close>

definition flagsSrc :: flags where
  "flagsSrc = \<lparr>listFlag = False, resetFlag = False, verboseFlag = False, cpuProfile = [],
     exclude = [], args = [''src'']\<rparr>"

definition flagsMissing :: flags where
  "flagsMissing = flagsSrc\<lparr>args := [''missing'']\<rparr>"

definition flagsNoArgs :: flags where
  "flagsNoArgs = flagsSrc\<lparr>args := []\<rparr>"

definition flagsListProfile :: flags where
  "flagsListProfile = flagsSrc\<lparr>listFlag := True, cpuProfile := ''/tmp/prof''\<rparr>"

definition flagsBadPattern :: flags where
  "flagsBadPattern = flagsSrc\<lparr>cpuProfile := ''/tmp/prof'', exclude := [''('']\<rparr>"

definition flagsResetOnlyBadPattern :: flags where
  "flagsResetOnlyBadPattern = flagsSrc\<lparr>resetFlag := True, args := [], exclude := [''('']\<rparr>"

section \<open>Lemmas on runs\<close>

lemma fst_emit: "fst (emit evs k) = evs @ fst k"
  by (simp add: emit_def)

lemma snd_emit: "snd (emit evs k) = snd k"
  by (simp add: emit_def)

lemma fst_call: "fst (call e c k) = Lib c # (if lib_abort e c = None then fst k else [])"
  by (simp add: call_def emit_def split: option.splits)

lemma snd_call: "snd (call e c k) = (case lib_abort e c of None \<Rightarrow> snd k | Some a \<Rightarrow> Aborted a)"
  by (simp add: call_def emit_def split: option.splits)

lemma fst_os: "fst (os e c k) = Os c (os_err e c) # fst k"
  by (simp add: os_def emit_def)

lemma snd_os: "snd (os e c k) = snd k"
  by (simp add: os_def emit_def)

lemma fst_deferred: "fst (deferred ds b) = fst b @ (if snd b = Aborted OsExit then [] else ds)"
  by (simp add: deferred_def)

lemma snd_deferred: "snd (deferred ds b) = snd b"
  by (simp add: deferred_def)

lemmas run_simps = fst_emit snd_emit fst_call snd_call fst_os snd_os fst_deferred snd_deferred

lemma walkFn_events: "list_all (walkEvent file) (fst (walkFn e v res file path info err))"
  by (simp add: walkFn_def Let_def split: option.splits)

lemma walk_events:
  "(\<forall>p i er. list_all Q (fst (fn p i er))) \<Longrightarrow> list_all Q (fst (walk fn path info nd))"
  "(\<forall>p i er. list_all Q (fst (fn p i er))) \<Longrightarrow> list_all Q (fst (walkNames fn path ents))"
proof (induction fn path info nd and fn path ents rule: walk_walkNames.induct)
  case (1 fn path info st rd ents)
  obtain t r where f: "fn path (Some info) rd = (t, r)"
    by (cases "fn path (Some info) rd")
  have t: "list_all Q t"
    using "1.prems" [rule_format, of path "Some info" rd] f by simp
  have a: "list_all Q (fst (fn path (Some info) None))"
    using "1.prems" by simp
  show ?case
  proof (cases "IsDir info \<and> rd = None \<and> r = RetNil")
    case True
    from True have "list_all Q (fst (walkNames fn path ents))"
      using "1.IH" f "1.prems" by simp
    with True f t show ?thesis
      by (auto split: prod.splits)
  next
    case False
    with f t a show ?thesis
      by auto
  qed
next
  case (2 fn path)
  then show ?case by simp
next
  case (3 fn path name nd rest)
  show ?case
  proof (cases "lstat nd")
    case (Inl err)
    obtain t r where f: "fn (Join path name) None (Some err) = (t, r)"
      by (cases "fn (Join path name) None (Some err)")
    have t: "list_all Q t"
      using "3.prems" [rule_format, of "Join path name" None "Some err"] f by simp
    show ?thesis
      using Inl f t 3 by (auto split: cbresult.splits prod.splits)
  next
    case (Inr fileInfo)
    obtain t r where f: "walk fn (Join path name) fileInfo nd = (t, r)"
      by (cases "walk fn (Join path name) fileInfo nd")
    have t: "list_all Q t"
      using "3.IH" Inr "3.prems" f by simp
    show ?thesis
      using Inr f t 3 by (auto split: cbresult.splits prod.splits)
  qed
qed

lemma Walk_events:
  "list_all (walkEvent file) (fst (Walk (walkFn e v res file) root nd))"
  by (simp add: Walk_def walkFn_events walk_events split: sum.splits)

text \<open>The loop over the roots either reaches the rest of the program or ends the process.\<close>

lemma walkRoots_walked:
  "walkRoots e v res file roots k =
     (if snd (walked e v res file roots) = Returned
      then (fst (walked e v res file roots) @ fst k, snd k)
      else walked e v res file roots)"
  unfolding walked_def
  by (induction roots) (auto simp: emit_def split: prod.splits cbresult.splits)

lemma walked_events: "list_all (\<lambda>ev. walkEvent file ev) (fst (walked e v res file roots))"
  unfolding walked_def
proof (induction roots)
  case Nil
  then show ?case by simp
next
  case (Cons arg rest)
  have "list_all (walkEvent file) (fst (Walk (walkFn e v res file) arg (tree e arg)))"
    by (rule Walk_events)
  with Cons show ?case
    by (auto simp: emit_def split: prod.splits cbresult.splits)
qed

lemma fst_walkRoots:
  "fst (walkRoots e v res file roots k) =
     fst (walked e v res file roots) @ (if snd (walked e v res file roots) = Returned then fst k else [])"
  by (subst walkRoots_walked) simp

lemma snd_walkRoots:
  "snd (walkRoots e v res file roots k) =
     (if snd (walked e v res file roots) = Returned then snd k else snd (walked e v res file roots))"
  by (subst walkRoots_walked) simp

section \<open>The path resolver\<close>

lemma snd_absArgs: "snd (absArgs A as) = map (blanked A) as"
  by (induction as) (auto simp: blanked_def split: sum.splits)

lemma fst_absArgs: "fst (absArgs A as) = concat (map (reported A) as)"
  by (induction as) (auto simp: reported_def split: sum.splits)

lemma dropEmpty_sorted: "sorted xs \<Longrightarrow> dropEmpty xs = filter (\<lambda>a. a \<noteq> []) xs"
proof (induction xs)
  case Nil
  then show ?case by simp
next
  case (Cons a xs)
  show ?case
  proof (cases "a = []")
    case True
    with Cons show ?thesis by simp
  next
    case False
    from Cons.prems have "\<forall>b \<in> set xs. a \<le> b" by simp
    with False have "\<forall>b \<in> set xs. b \<noteq> []" by auto
    then have "filter (\<lambda>a. a \<noteq> []) xs = xs" by (simp add: filter_id_conv)
    with False show ?thesis by simp
  qed
qed

lemma resolve_eq: "resolve A as = sort (filter (\<lambda>a. a \<noteq> []) (map (blanked A) as))"
  by (simp add: resolve_def snd_absArgs dropEmpty_sorted filter_sort)

text \<open>
  C8, as the code has it. The roots handed to the walker are the absolute paths of the
  arguments, those that \<^verbatim>\<open>filepath.Abs\<close> fails on blanked and dropped, in
  lexicographic order, with no empty entry; each failure is logged and nothing ends the
  run. Equal paths are not removed: sorting only makes them neighbours, so the result is
  as long as the list of resolved arguments.
\<close>

theorem resolve_sorted_blanks_dropped:
  "resolve A as = sort (filter (\<lambda>a. a \<noteq> []) (map (blanked A) as))
   \<and> sorted (resolve A as)
   \<and> [] \<notin> set (resolve A as)
   \<and> length (resolve A as) = length (filter (\<lambda>a. a \<noteq> []) (map (blanked A) as))
   \<and> fst (absArgs A as) = concat (map (reported A) as)"
  by (simp add: resolve_eq fst_absArgs)

text \<open>
  C8 as stated fails: the same directory named twice, once relative and once absolute,
  comes out twice.
\<close>

theorem resolve_keeps_duplicates:
  "resolve (absUnder ''/w'') [''src'', ''/w/src''] = [''/w/src'', ''/w/src'']
   \<and> \<not> distinct_adj (resolve (absUnder ''/w'') [''src'', ''/w/src''])"
  by (simp add: resolve_def absUnder_def)

text \<open>
  With no working directory, the relative path is reported and dropped and the others
  are kept, in order.
\<close>

lemma resolve_drops_unresolved_example:
  "resolve absNoCwd [''src'', ''/w/src'', ''/a''] = [''/a'', ''/w/src'']
   \<and> fst (absArgs absNoCwd [''src'', ''/w/src'', ''/a''])
       = [Log ''src: getwd: no such file or directory'']"
  by (simp add: resolve_def absNoCwd_def)

section \<open>The walk callback\<close>

lemma lastSep_le: "lastSep p n \<le> n"
  by (induction n) auto

lemma lastSep_no_sep: "n \<le> length p \<Longrightarrow> lastSep p n \<le> k \<Longrightarrow> k < n \<Longrightarrow> p ! k \<noteq> CHR ''/''"
proof (induction n)
  case 0
  then show ?case by simp
next
  case (Suc n)
  then show ?case
    by (cases "k = n") (auto split: if_splits)
qed

lemma lastSep_sep: "0 < lastSep p n \<Longrightarrow> p ! (lastSep p n - 1) = CHR ''/''"
  by (induction n) auto

lemma Split_append: "fst (Split p) @ snd (Split p) = p"
  by (simp add: Split_def)

lemma Split_no_sep: "CHR ''/'' \<notin> set (snd (Split p))"
proof
  assume "CHR ''/'' \<in> set (snd (Split p))"
  then obtain j where j: "j < length (snd (Split p))" "snd (Split p) ! j = CHR ''/''"
    by (auto simp: in_set_conv_nth)
  let ?k = "lastSep p (length p) + j"
  from j have "?k < length p" by (simp add: Split_def)
  moreover from j have "p ! ?k = CHR ''/''" by (simp add: Split_def)
  ultimately show False
    using lastSep_no_sep [of "length p" p ?k] by simp
qed

lemma Split_dir: "fst (Split p) = [] \<or> last (fst (Split p)) = CHR ''/''"
proof (cases "lastSep p (length p) = 0")
  case True
  then show ?thesis by (simp add: Split_def)
next
  case False
  have le: "lastSep p (length p) \<le> length p" by (rule lastSep_le)
  from False le have "take (lastSep p (length p)) p \<noteq> []" by auto
  then have "last (take (lastSep p (length p)) p) = p ! (lastSep p (length p) - 1)"
    using le False by (simp add: last_conv_nth)
  with False show ?thesis
    using lastSep_sep [of p "length p"] by (simp add: Split_def)
qed

text \<open>
  C7. An entry with file info that the directory pattern rule does not exclude, and whose
  last path component (what \<^verbatim>\<open>filepath.Split\<close> leaves after the last separator) is
  not empty and starts with \<^verbatim>\<open>.\<close>, \<^verbatim>\<open>#\<close> or \<^verbatim>\<open>~\<close> or ends with \<^verbatim>\<open>~\<close>: the callback
  returns \<^verbatim>\<open>SkipDir\<close> for a directory and nil otherwise, adds no file and logs
  nothing, whatever the patterns, the error passed in and the verbosity.
\<close>

theorem hidden_entry_skipped:
  assumes "\<not> (IsDir i \<and> anyRegexpMatches res path)"
    and "snd (Split path) = elem" and "elem \<noteq> []"
    and "hd elem = CHR ''.'' \<or> hd elem = CHR ''#'' \<or> hd elem = CHR ''~'' \<or> last elem = CHR ''~''"
  shows "walkFn e verbose res ixfile path (Some i) err = ([], if IsDir i then RetSkipDir else RetNil)
    \<and> path = fst (Split path) @ elem \<and> CHR ''/'' \<notin> set elem"
  using assms Split_append [of path] Split_no_sep [of path]
  by (auto simp: walkFn_def Let_def)

theorem hidden_entry_skipped_witness:
  "walkFn envPlain False [matchNothing] ''/idx~'' ''/w/src/.git'' (Some directory) None
     = ([], RetSkipDir)
   \<and> walkFn envPlain False [] ''/idx~'' ''/w/src/b.go~'' (Some regularFile)
       (Some ''lstat: input/output error'') = ([], RetNil)"
proof -
  have a: "snd (Split ''/w/src/.git'') = ''.git''" and b: "snd (Split ''/w/src/b.go~'') = ''b.go~''"
    by code_simp+
  show ?thesis
    using hidden_entry_skipped [where i = directory and res = "[matchNothing]"
        and path = "''/w/src/.git''" and elem = "''.git''" and e = envPlain and verbose = False
        and ixfile = "''/idx~''" and err = None, OF _ a]
      hidden_entry_skipped [where i = regularFile and res = "[]"
        and path = "''/w/src/b.go~''" and elem = "''b.go~''" and e = envPlain and verbose = False
        and ixfile = "''/idx~''" and err = "Some ''lstat: input/output error''", OF _ b]
    by (simp add: directory_def regularFile_def matchNothing_def)
qed

lemma walkFn_nil_info:
  "walkFn e verbose res file path None err
     = ([Panic ''invalid memory address or nil pointer dereference''], RetAbort GoPanic)"
  by (simp add: walkFn_def)

text \<open>
  C2 fails on the code. \<^verbatim>\<open>filepath.Walk\<close> calls the callback with a nil file info
  when \<^verbatim>\<open>os.Lstat\<close> fails, on the root or on an entry; line 178 calls
  \<^verbatim>\<open>info.IsDir()\<close> before line 194 looks at the error and before line 198 checks
  \<^verbatim>\<open>info != nil\<close>, so the callback panics and the run ends there: no diagnostic for
  the entry, no flush, no merge. First the only root does not exist; then the root is a
  directory whose entry cannot be looked up.
\<close>

theorem lstat_failure_panics:
  "main envPlain flagsMissing =
     ([Os (os_Stat ''/idx'') None, Lib (index_Create ''/idx~''),
       Lib (ix_AddPaths ''/idx~'' [''/w/missing'']), Log ''index /w/missing'',
       Panic ''invalid memory address or nil pointer dereference''], Aborted GoPanic)
   \<and> main envLocked flagsSrc =
     ([Os (os_Stat ''/idx'') None, Lib (index_Create ''/idx~''),
       Lib (ix_AddPaths ''/idx~'' [''/w/src'']), Log ''index /w/src'',
       Panic ''invalid memory address or nil pointer dereference''], Aborted GoPanic)
   \<and> exit_code (snd (main envLocked flagsSrc)) = 2"
  by code_simp

section \<open>Writes to the master index's path\<close>

lemma touching_Nil: "touching p [] = []"
  by (simp add: touching_def)

lemma touching_Cons: "touching p (ev # t) = (if p \<in> set (writes ev) then ev # touching p t else touching p t)"
  by (simp add: touching_def)

lemma touching_append: "touching p (s @ t) = touching p s @ touching p t"
  by (simp add: touching_def)

lemma walkEvent_writes: "walkEvent f ev \<Longrightarrow> f \<noteq> p \<Longrightarrow> p \<notin> set (writes ev)"
  by (induction f ev rule: walkEvent.induct) auto

lemma touching_walkEvents: "list_all (walkEvent f) t \<Longrightarrow> f \<noteq> p \<Longrightarrow> touching p t = []"
  by (induction t) (auto simp: touching_Nil touching_Cons walkEvent_writes)

lemma touching_walked: "f \<noteq> p \<Longrightarrow> touching p (fst (walked e v res f roots)) = []"
  using walked_events [of f e v res roots] by (rule touching_walkEvents)

lemma touching_reported: "touching p (concat (map (reported A) as)) = []"
  by (induction as) (auto simp: touching_Nil touching_Cons touching_append reported_def split: sum.splits)

lemma tilde_neq: "m @ ''~'' \<noteq> m" "m @ ''~~'' \<noteq> m" "m @ ''~~'' \<noteq> m @ ''~''"
  by simp_all

lemma fst_finish:
  "fst (finish e reset m f) =
     (if reset then [Log ''done'']
      else Log (''merge '' @ m @ '' '' @ f) # Lib (index_Merge (f @ ''~'') m f) #
        (if lib_abort e (index_Merge (f @ ''~'') m f) = None
         then [Os (os_Remove f) (os_err e (os_Remove f)),
               Os (os_Rename (f @ ''~'') m) (os_err e (os_Rename (f @ ''~'') m)), Log ''done'']
         else []))"
  by (simp add: finish_def run_simps)

lemma snd_finish:
  "snd (finish e reset m f) =
     (if reset then Returned
      else (case lib_abort e (index_Merge (f @ ''~'') m f) of None \<Rightarrow> Returned | Some a \<Rightarrow> Aborted a))"
  by (simp add: finish_def run_simps split: option.splits)

lemma build_cases:
  "build e fl as =
     emit (concat (map (reported (filepath_Abs e)) as))
       (os e (os_Stat (index_File e))
         (case compileAll (regexp_Compile e) (excludePatterns fl) of
            Inl err \<Rightarrow> ([Panic err], Aborted GoPanic)
          | Inr res \<Rightarrow> indexing e fl res (resolve (filepath_Abs e) as)))"
  by (simp add: build_def fst_absArgs)

lemma build_Inl:
  "compileAll (regexp_Compile e) (excludePatterns fl) = Inl err \<Longrightarrow>
   build e fl as =
     (concat (map (reported (filepath_Abs e)) as)
        @ [Os (os_Stat (index_File e)) (os_err e (os_Stat (index_File e))), Panic err],
      Aborted GoPanic)"
  by (simp add: build_cases emit_def os_def)

lemma build_Inr:
  "compileAll (regexp_Compile e) (excludePatterns fl) = Inr res \<Longrightarrow>
   build e fl as =
     (concat (map (reported (filepath_Abs e)) as)
        @ Os (os_Stat (index_File e)) (os_err e (os_Stat (index_File e)))
        # fst (indexing e fl res (resolve (filepath_Abs e) as)),
      snd (indexing e fl res (resolve (filepath_Abs e) as)))"
  by (simp add: build_cases emit_def os_def)

lemma stagingFile_incremental: "\<not> resetMode e fl \<Longrightarrow> stagingFile e fl = index_File e @ ''~''"
  by (simp add: stagingFile_def)

lemma touching_indexing:
  assumes "\<not> resetMode e fl"
  shows "touching (index_File e) (fst (indexing e fl res roots)) = []
       \<or> touching (index_File e) (fst (indexing e fl res roots))
           = [Os (os_Rename (index_File e @ ''~~'') (index_File e)) None]"
proof -
  have w: "touching (index_File e) (fst (walked e (verboseFlag fl) res (index_File e @ ''~'') roots)) = []"
    by (rule touching_walked) simp
  show ?thesis
    using assms w
    apply (simp add: indexing_def stagingFile_incremental run_simps fst_walkRoots fst_finish
        touching_Nil touching_Cons touching_append)
    apply (cases "os_err e (os_Rename (index_File e @ ''~~'') (index_File e))")
     apply (cases "os_err e (os_Remove (index_File e @ ''~''))"; simp)
    apply (cases "os_err e (os_Remove (index_File e @ ''~''))"; simp)
    done
qed

lemma touching_build:
  assumes "\<not> resetMode e fl"
  shows "touching (index_File e) (fst (build e fl as)) = []
       \<or> touching (index_File e) (fst (build e fl as))
           = [Os (os_Rename (index_File e @ ''~~'') (index_File e)) None]"
proof (cases "compileAll (regexp_Compile e) (excludePatterns fl)")
  case (Inl err)
  then show ?thesis
    by (simp add: build_Inl touching_Nil touching_Cons touching_append touching_reported)
next
  case (Inr res)
  with touching_indexing [OF assms, of res "resolve (filepath_Abs e) as"] show ?thesis
    by (simp add: build_Inr touching_Nil touching_Cons touching_append touching_reported)
qed

lemma resetMode_resetFlag: "\<not> resetMode e fl \<Longrightarrow> \<not> resetFlag fl"
  by (simp add: resetMode_def)

lemma touching_body:
  assumes "\<not> resetMode e fl"
  shows "touching (index_File e) (fst (body e fl)) = []
       \<or> touching (index_File e) (fst (body e fl))
           = [Os (os_Rename (index_File e @ ''~~'') (index_File e)) None]"
  using touching_build [OF assms, of "args fl"] touching_build [OF assms, of "Paths e (index_File e)"]
    resetMode_resetFlag [OF assms]
  by (auto simp: body_def run_simps touching_Nil touching_Cons touching_append)

text \<open>
  C1, as the code has it. In an incremental run (no list flag, no reset flag, and
  \<^verbatim>\<open>os.Stat\<close> finds the master), with the profile written elsewhere, the only event
  that creates, writes, removes or replaces the file at the master's path is the rename
  of the merged index onto it, and it happens at most once: the writer, the flush and the
  merge all work on other paths.
\<close>

theorem incremental_master_only_renamed:
  assumes "\<not> listFlag fl" and "\<not> resetMode e fl" and "cpuProfile fl \<noteq> index_File e"
  shows "touching (index_File e) (fst (main e fl)) = []
       \<or> touching (index_File e) (fst (main e fl))
           = [Os (os_Rename (index_File e @ ''~~'') (index_File e)) None]"
  using assms(1,3) touching_body [OF assms(2)]
  by (auto simp: main_def run_simps touching_Nil touching_Cons touching_append split: option.splits)

theorem incremental_master_only_renamed_witness:
  "\<not> listFlag flagsSrc \<and> \<not> resetMode envPlain flagsSrc
   \<and> cpuProfile flagsSrc \<noteq> index_File envPlain
   \<and> touching (index_File envPlain) (fst (main envPlain flagsSrc))
       = [Os (os_Rename ''/idx~~'' ''/idx'') None]"
proof -
  have h1: "\<not> listFlag flagsSrc" and h3: "cpuProfile flagsSrc \<noteq> index_File envPlain"
    by (simp_all add: flagsSrc_def envPlain_def)
  have h2: "\<not> resetMode envPlain flagsSrc"
    by (simp add: resetMode_def flagsSrc_def envPlain_def noErr_def)
  have ne: "touching (index_File envPlain) (fst (main envPlain flagsSrc)) \<noteq> []"
    by code_simp
  have m: "index_File envPlain = ''/idx''"
    by (simp add: envPlain_def)
  show ?thesis
    using incremental_master_only_renamed [OF h1 h2 h3] ne h1 h2 h3 by (simp add: m)
qed

text \<open>
  C1 as stated fails in reset mode: with no master yet, line 171 creates the writer at
  the master's path itself, and the roots, the files and the flush go there; no rename
  follows.
\<close>

theorem reset_writes_master_directly:
  "touching ''/idx'' (fst (main envNoIndex flagsSrc)) =
     [Lib (index_Create ''/idx''), Lib (ix_AddPaths ''/idx'' [''/w/src'']),
      Lib (ix_AddFile ''/idx'' ''/w/src/a.go''), Lib (ix_AddFile ''/idx'' ''/w/src/z.go''),
      Lib (ix_Flush ''/idx'')]"
  by code_simp

section \<open>The run that returns\<close>

lemma indexing_Returned:
  assumes "snd (indexing e fl res roots) = Returned"
  shows "fst (indexing e fl res roots) =
           Lib (index_Create (stagingFile e fl)) # Lib (ix_AddPaths (stagingFile e fl) roots)
           # fst (walked e (verboseFlag fl) res (stagingFile e fl) roots)
           @ Log ''flush index'' # Lib (ix_Flush (stagingFile e fl))
           # fst (finish e (resetMode e fl) (index_File e) (stagingFile e fl))"
    and "snd (finish e (resetMode e fl) (index_File e) (stagingFile e fl)) = Returned"
  using assms
  by (auto simp: indexing_def run_simps fst_walkRoots snd_walkRoots split: option.splits if_splits)

lemma build_Returned:
  assumes "snd (build e fl as) = Returned"
  obtains res where "compileAll (regexp_Compile e) (excludePatterns fl) = Inr res"
    and "snd (indexing e fl res (resolve (filepath_Abs e) as)) = Returned"
    and "fst (build e fl as) =
           concat (map (reported (filepath_Abs e)) as)
           @ Os (os_Stat (index_File e)) (os_err e (os_Stat (index_File e)))
           # fst (indexing e fl res (resolve (filepath_Abs e) as))"
proof (cases "compileAll (regexp_Compile e) (excludePatterns fl)")
  case (Inl err)
  with assms show ?thesis by (simp add: build_Inl)
next
  case (Inr res)
  with assms that [of res] show ?thesis by (simp add: build_Inr)
qed

lemma body_Returned:
  assumes "\<not> (resetFlag fl \<and> args fl = [])" and "snd (body e fl) = Returned"
  shows "snd (build e fl (givenArgs e fl)) = Returned"
    and "fst (body e fl) =
           (if args fl = [] then [Lib (index_Open (index_File e))] else [])
           @ fst (build e fl (givenArgs e fl))"
  using assms
  by (auto simp: body_def givenArgs_def run_simps split: option.splits if_splits)

lemma main_Returned:
  assumes "\<not> listFlag fl" and "snd (main e fl) = Returned"
  shows "snd (body e fl) = Returned"
    and "fst (main e fl) = profileStart fl @ fst (body e fl) @ profileStop fl"
  using assms
  by (auto simp: main_def profileStart_def profileStop_def run_simps split: option.splits if_splits)

lemma finish_incremental_Returned:
  assumes "snd (finish e False m (m @ ''~'')) = Returned"
  shows "Lib (ix_Flush (m @ ''~'')) # fst (finish e False m (m @ ''~''))
     = [Lib (ix_Flush (m @ ''~'')), Log (''merge '' @ m @ '' '' @ m @ ''~''),
        Lib (index_Merge (m @ ''~~'') m (m @ ''~'')),
        Os (os_Remove (m @ ''~'')) (os_err e (os_Remove (m @ ''~''))),
        Os (os_Rename (m @ ''~~'') m) (os_err e (os_Rename (m @ ''~~'') m)), Log ''done'']"
  using assms by (simp add: fst_finish snd_finish split: option.splits)

text \<open>
  C3, as the code has it. An incremental run that returns ends with: the flush of the
  staging index at the master's path plus \<^verbatim>\<open>~\<close>, the merge of staging and master into
  the master's path plus \<^verbatim>\<open>~~\<close> (a path distinct from both), the removal of the staging
  index, the rename of the merged index onto the master, and the last log line (then the
  deferred calls of the profile). The staging index is removed after the merge has
  returned and before the rename.
\<close>

theorem incremental_merge_remove_rename:
  assumes "\<not> listFlag fl" and "\<not> resetMode e fl" and "snd (main e fl) = Returned"
  shows "(\<exists>pre. fst (main e fl) = pre @ publish e @ profileStop fl)
    \<and> index_File e @ ''~~'' \<noteq> index_File e
    \<and> index_File e @ ''~~'' \<noteq> index_File e @ ''~''"
proof -
  have nr: "\<not> (resetFlag fl \<and> args fl = [])"
    using assms(2) by (simp add: resetMode_def)
  note m = main_Returned [OF assms(1,3)]
  note b = body_Returned [OF nr m(1)]
  from b(1) obtain res where
    i: "snd (indexing e fl res (resolve (filepath_Abs e) (givenArgs e fl))) = Returned"
    and t: "fst (build e fl (givenArgs e fl)) =
           concat (map (reported (filepath_Abs e)) (givenArgs e fl))
           @ Os (os_Stat (index_File e)) (os_err e (os_Stat (index_File e)))
           # fst (indexing e fl res (resolve (filepath_Abs e) (givenArgs e fl)))"
    by (rule build_Returned)
  note x = indexing_Returned [OF i]
  have f: "snd (finish e False (index_File e) (index_File e @ ''~'')) = Returned"
    using x(2) assms(2) by (simp add: stagingFile_incremental)
  have "fst (main e fl) =
      (profileStart fl @ (if args fl = [] then [Lib (index_Open (index_File e))] else [])
        @ concat (map (reported (filepath_Abs e)) (givenArgs e fl))
        @ Os (os_Stat (index_File e)) (os_err e (os_Stat (index_File e)))
        # Lib (index_Create (index_File e @ ''~''))
        # Lib (ix_AddPaths (index_File e @ ''~'') (resolve (filepath_Abs e) (givenArgs e fl)))
        # fst (walked e (verboseFlag fl) res (index_File e @ ''~'')
              (resolve (filepath_Abs e) (givenArgs e fl)))
        @ [Log ''flush index''])
      @ publish e @ profileStop fl"
    using assms(2) finish_incremental_Returned [OF f]
    by (simp add: m(2) b(2) t x(1) stagingFile_incremental publish_def)
  then show ?thesis by blast
qed

theorem incremental_merge_remove_rename_witness:
  "\<not> listFlag flagsSrc \<and> \<not> resetMode envPlain flagsSrc
   \<and> snd (main envPlain flagsSrc) = Returned
   \<and> (\<exists>pre. fst (main envPlain flagsSrc) = pre @ publish envPlain @ profileStop flagsSrc)"
proof -
  have h1: "\<not> listFlag flagsSrc"
    by (simp add: flagsSrc_def)
  have h2: "\<not> resetMode envPlain flagsSrc"
    by (simp add: resetMode_def flagsSrc_def envPlain_def noErr_def)
  have h3: "snd (main envPlain flagsSrc) = Returned"
    by code_simp
  show ?thesis
    using incremental_merge_remove_rename [OF h1 h2 h3] h1 h2 h3 by simp
qed

text \<open>
  C3 as stated fails: line 210 removes the staging index before line 211 renames the
  merged index, not after.
\<close>

theorem staging_removed_before_rename:
  "precedes (Os (os_Remove ''/idx~'') None) (Os (os_Rename ''/idx~~'' ''/idx'') None)
     (fst (main envPlain flagsSrc))
   \<and> \<not> precedes (Os (os_Rename ''/idx~~'' ''/idx'') None) (Os (os_Remove ''/idx~'') None)
     (fst (main envPlain flagsSrc))"
  by code_simp

lemma main_Returned_trace:
  assumes "\<not> listFlag fl" and "\<not> (resetFlag fl \<and> args fl = [])" and "snd (main e fl) = Returned"
  obtains res where "compileAll (regexp_Compile e) (excludePatterns fl) = Inr res"
    and "fst (main e fl) =
           beforeFlush e fl res
           @ Lib (ix_Flush (stagingFile e fl))
           # fst (finish e (resetMode e fl) (index_File e) (stagingFile e fl))
           @ profileStop fl"
    and "snd (finish e (resetMode e fl) (index_File e) (stagingFile e fl)) = Returned"
proof -
  note m = main_Returned [OF assms(1,3)]
  note b = body_Returned [OF assms(2) m(1)]
  from b(1) obtain res where
    c: "compileAll (regexp_Compile e) (excludePatterns fl) = Inr res"
    and i: "snd (indexing e fl res (resolve (filepath_Abs e) (givenArgs e fl))) = Returned"
    and t: "fst (build e fl (givenArgs e fl)) =
           concat (map (reported (filepath_Abs e)) (givenArgs e fl))
           @ Os (os_Stat (index_File e)) (os_err e (os_Stat (index_File e)))
           # fst (indexing e fl res (resolve (filepath_Abs e) (givenArgs e fl)))"
    by (rule build_Returned)
  note x = indexing_Returned [OF i]
  have eq: "fst (main e fl) =
           beforeFlush e fl res
           @ Lib (ix_Flush (stagingFile e fl))
           # fst (finish e (resetMode e fl) (index_File e) (stagingFile e fl))
           @ profileStop fl"
    by (simp add: m(2) b(2) t x(1) beforeFlush_def)
  show ?thesis by (rule that [OF c eq x(2)])
qed

lemma walkEvent_Lib: "walkEvent f (Lib c) \<Longrightarrow> \<exists>p. c = ix_AddFile f p"
  by (cases c) simp_all

lemma walked_Lib: "Lib c \<in> set (fst (walked e v res f roots)) \<Longrightarrow> \<exists>p. c = ix_AddFile f p"
  using walked_events [of f e v res roots] by (auto simp: list_all_iff dest: walkEvent_Lib)

lemma reported_Lib1: "Lib c \<notin> set (reported A x)"
  by (simp add: reported_def split: sum.splits)

lemma reported_Lib: "Lib c \<notin> set (concat (map (reported A) as))"
  by (simp add: reported_Lib1)

lemma reported_Os: "Os c r \<notin> set (concat (map (reported A) as))"
  by (auto simp: reported_def split: sum.splits)

lemma beforeFlush_Lib:
  "Lib c \<in> set (beforeFlush e fl res) \<Longrightarrow>
     c = index_Open (index_File e) \<or> c = index_Create (stagingFile e fl)
     \<or> c = ix_AddPaths (stagingFile e fl) (resolve (filepath_Abs e) (givenArgs e fl))
     \<or> (\<exists>p. c = ix_AddFile (stagingFile e fl) p)"
  by (auto simp: beforeFlush_def profileStart_def reported_Lib1 dest: walked_Lib split: if_splits)

lemma profileStop_Lib: "Lib c \<notin> set (profileStop fl)"
  by (simp add: profileStop_def)

lemma pos_append_notin: "ev \<notin> set xs \<Longrightarrow> pos ev (xs @ ys) = length xs + pos ev ys"
  by (induction xs) (auto simp: pos_def)

lemma pos_Cons: "pos ev (x # t) = (if x = ev then 0 else Suc (pos ev t))"
  by (simp add: pos_def)

text \<open>
  C6. In a build run (no list flag, not a reset without paths) that returns, the writer
  is created at one path only. When reset was requested or \<^verbatim>\<open>os.Stat\<close> does not find
  the master, that path is the master's and no merge is called. Otherwise it is the
  master's path plus \<^verbatim>\<open>~\<close>, which differs from the master's, and the merge is called
  after the flush.
\<close>

theorem reset_mode_staging_and_merge:
  assumes "\<not> listFlag fl" and "\<not> (resetFlag fl \<and> args fl = [])" and "snd (main e fl) = Returned"
  shows "(resetFlag fl \<or> os_err e (os_Stat (index_File e)) \<noteq> None \<longrightarrow>
            Lib (index_Create (index_File e)) \<in> set (fst (main e fl))
            \<and> (\<forall>p. Lib (index_Create p) \<in> set (fst (main e fl)) \<longrightarrow> p = index_File e)
            \<and> (\<forall>d a b. Lib (index_Merge d a b) \<notin> set (fst (main e fl))))
       \<and> (\<not> (resetFlag fl \<or> os_err e (os_Stat (index_File e)) \<noteq> None) \<longrightarrow>
            Lib (index_Create (index_File e @ ''~'')) \<in> set (fst (main e fl))
            \<and> (\<forall>p. Lib (index_Create p) \<in> set (fst (main e fl)) \<longrightarrow> p = index_File e @ ''~'')
            \<and> index_File e @ ''~'' \<noteq> index_File e
            \<and> precedes (Lib (ix_Flush (index_File e @ ''~'')))
                 (Lib (index_Merge (index_File e @ ''~~'') (index_File e) (index_File e @ ''~'')))
                 (fst (main e fl)))"
proof -
  from assms obtain res where
    t: "fst (main e fl) =
           beforeFlush e fl res
           @ Lib (ix_Flush (stagingFile e fl))
           # fst (finish e (resetMode e fl) (index_File e) (stagingFile e fl))
           @ profileStop fl"
    and f: "snd (finish e (resetMode e fl) (index_File e) (stagingFile e fl)) = Returned"
    by (rule main_Returned_trace)
  have c: "Lib (index_Create (stagingFile e fl)) \<in> set (fst (main e fl))"
    by (simp add: t beforeFlush_def)
  have L: "c = index_Open (index_File e) \<or> c = index_Create (stagingFile e fl)
      \<or> c = ix_AddPaths (stagingFile e fl) (resolve (filepath_Abs e) (givenArgs e fl))
      \<or> (\<exists>p. c = ix_AddFile (stagingFile e fl) p) \<or> c = ix_Flush (stagingFile e fl)
      \<or> (\<not> resetMode e fl \<and> c = index_Merge (stagingFile e fl @ ''~'') (index_File e) (stagingFile e fl))"
    if "Lib c \<in> set (fst (main e fl))" for c
  proof -
    from that consider "Lib c \<in> set (beforeFlush e fl res)" | "c = ix_Flush (stagingFile e fl)"
      | "Lib c \<in> set (fst (finish e (resetMode e fl) (index_File e) (stagingFile e fl)))"
      by (auto simp: t profileStop_Lib)
    then show ?thesis
    proof cases
      case 1
      then show ?thesis using beforeFlush_Lib [of c e fl res] by blast
    next
      case 2
      then show ?thesis by simp
    next
      case 3
      then show ?thesis by (simp add: fst_finish split: if_splits)
    qed
  qed
  show ?thesis
  proof (cases "resetMode e fl")
    case True
    then have s: "stagingFile e fl = index_File e"
      by (simp add: stagingFile_def)
    have 1: "Lib (index_Create (index_File e)) \<in> set (fst (main e fl))"
      using c by (simp add: s)
    have 2: "p = index_File e" if "Lib (index_Create p) \<in> set (fst (main e fl))" for p
      using L [OF that] by (simp add: s)
    have 3: "Lib (index_Merge d a b) \<notin> set (fst (main e fl))" for d a b
      using L [of "index_Merge d a b"] True by auto
    from True have r: "resetFlag fl \<or> os_err e (os_Stat (index_File e)) \<noteq> None"
      by (simp add: resetMode_def)
    from r 1 2 3 show ?thesis
      by blast
  next
    case False
    then have s: "stagingFile e fl = index_File e @ ''~''"
      by (simp add: stagingFile_def)
    have nf: "Lib (ix_Flush (index_File e @ ''~'')) \<notin> set (beforeFlush e fl res)"
      using beforeFlush_Lib [of "ix_Flush (index_File e @ ''~'')" e fl res] by auto
    have nm: "Lib (index_Merge (index_File e @ ''~~'') (index_File e) (index_File e @ ''~''))
                 \<notin> set (beforeFlush e fl res)"
      using beforeFlush_Lib [of "index_Merge (index_File e @ ''~~'') (index_File e) (index_File e @ ''~'')" e fl res]
      by auto
    have m: "lib_abort e (index_Merge (index_File e @ ''~~'') (index_File e) (index_File e @ ''~'')) = None"
      using f False by (simp add: snd_finish s split: option.splits)
    have 1: "Lib (index_Create (index_File e @ ''~'')) \<in> set (fst (main e fl))"
      using c by (simp add: s)
    have 2: "p = index_File e @ ''~''" if "Lib (index_Create p) \<in> set (fst (main e fl))" for p
      using L [OF that] by (simp add: s)
    have 3: "precedes (Lib (ix_Flush (index_File e @ ''~'')))
                 (Lib (index_Merge (index_File e @ ''~~'') (index_File e) (index_File e @ ''~'')))
                 (fst (main e fl))"
      using False m
      by (simp add: precedes_def t s fst_finish pos_append_notin [OF nf] pos_append_notin [OF nm] pos_Cons)
    have 4: "index_File e @ ''~'' \<noteq> index_File e"
      by simp
    from False have r: "\<not> (resetFlag fl \<or> os_err e (os_Stat (index_File e)) \<noteq> None)"
      by (simp add: resetMode_def)
    from r 1 2 3 4 show ?thesis
      by blast
  qed
qed

theorem reset_mode_staging_and_merge_witness:
  "\<not> listFlag flagsSrc \<and> \<not> (resetFlag flagsSrc \<and> args flagsSrc = [])
   \<and> snd (main envPlain flagsSrc) = Returned
   \<and> Lib (index_Create ''/idx~'') \<in> set (fst (main envPlain flagsSrc))
   \<and> precedes (Lib (ix_Flush ''/idx~'')) (Lib (index_Merge ''/idx~~'' ''/idx'' ''/idx~''))
        (fst (main envPlain flagsSrc))
   \<and> snd (main envNoIndex flagsSrc) = Returned
   \<and> Lib (index_Create ''/idx'') \<in> set (fst (main envNoIndex flagsSrc))
   \<and> Lib (index_Merge ''/idx~~'' ''/idx'' ''/idx~'') \<notin> set (fst (main envNoIndex flagsSrc))"
proof -
  have h1: "\<not> listFlag flagsSrc" and h2: "\<not> (resetFlag flagsSrc \<and> args flagsSrc = [])"
    by (simp_all add: flagsSrc_def)
  have h3: "snd (main envPlain flagsSrc) = Returned" and h4: "snd (main envNoIndex flagsSrc) = Returned"
    by code_simp+
  have a: "os_err envPlain (os_Stat (index_File envPlain)) = None"
    and b: "os_err envNoIndex (os_Stat (index_File envNoIndex)) \<noteq> None"
    and c: "index_File envPlain = ''/idx''" "index_File envNoIndex = ''/idx''"
    and d: "\<not> resetFlag flagsSrc"
    by (simp_all add: envPlain_def envNoIndex_def noErr_def noIndexErr_def flagsSrc_def)
  show ?thesis
    using reset_mode_staging_and_merge [OF h1 h2 h3] reset_mode_staging_and_merge [OF h1 h2 h4]
      h1 h2 h3 h4 a b d
    by (simp add: c)
qed

section \<open>A run with no arguments\<close>

lemma profileStart_Lib: "Lib c \<notin> set (profileStart fl)"
  by (simp add: profileStart_def)

lemma profileStart_Stat: "Os (os_Stat p) r \<notin> set (profileStart fl)"
  by (simp add: profileStart_def)

lemma main_profiled:
  assumes "\<not> listFlag fl" and "cpuProfile fl \<noteq> [] \<longrightarrow> os_err e (os_Create (cpuProfile fl)) = None"
  shows "fst (main e fl) =
           profileStart fl @ fst (body e fl)
           @ (if snd (body e fl) = Aborted OsExit then [] else profileStop fl)"
    and "snd (main e fl) = snd (body e fl)"
  using assms
  by (auto simp: main_def profileStart_def profileStop_def run_simps)

lemma Stat_in_build:
  "Os (os_Stat (index_File e)) (os_err e (os_Stat (index_File e))) \<in> set (fst (build e fl as))"
  by (simp add: build_cases run_simps)

text \<open>
  C10. With no positional argument and neither the list nor the reset flag, the first
  thing the run does after starting the profile is to open the master index (line 116);
  the existence check (line 140) has not happened yet, and when the open returns it
  comes later. When the library does not return from opening the master, as for a file
  that does not exist, the run ends there: no \<^verbatim>\<open>os.Stat\<close>, no writer, no index built
  from an empty set of roots.
\<close>

theorem no_args_opens_master_before_stat:
  assumes "args fl = []" and "\<not> listFlag fl" and "\<not> resetFlag fl"
    and "cpuProfile fl \<noteq> [] \<longrightarrow> os_err e (os_Create (cpuProfile fl)) = None"
  shows "(\<exists>post. fst (main e fl) = profileStart fl @ Lib (index_Open (index_File e)) # post)
    \<and> (\<forall>r. Os (os_Stat (index_File e)) r \<notin> set (profileStart fl))
    \<and> (lib_abort e (index_Open (index_File e)) = None \<longrightarrow>
          precedes (Lib (index_Open (index_File e)))
            (Os (os_Stat (index_File e)) (os_err e (os_Stat (index_File e)))) (fst (main e fl)))
    \<and> (\<forall>a. lib_abort e (index_Open (index_File e)) = Some a \<longrightarrow>
          main e fl =
            (profileStart fl @ [Lib (index_Open (index_File e))]
               @ (if a = OsExit then [] else profileStop fl), Aborted a))"
proof -
  note m = main_profiled [OF assms(2,4)]
  have b: "fst (body e fl) = Lib (index_Open (index_File e)) #
             (if lib_abort e (index_Open (index_File e)) = None
              then fst (build e fl (Paths e (index_File e))) else [])"
    using assms(1,3) by (simp add: body_def run_simps)
  have sb: "snd (body e fl) = (case lib_abort e (index_Open (index_File e)) of
             None \<Rightarrow> snd (build e fl (Paths e (index_File e))) | Some a \<Rightarrow> Aborted a)"
    using assms(1,3) by (simp add: body_def run_simps)
  have 1: "\<exists>post. fst (main e fl) = profileStart fl @ Lib (index_Open (index_File e)) # post"
    by (simp add: m(1) b)
  have 2: "\<forall>r. Os (os_Stat (index_File e)) r \<notin> set (profileStart fl)"
    by (simp add: profileStart_Stat)
  have 3: "precedes (Lib (index_Open (index_File e)))
            (Os (os_Stat (index_File e)) (os_err e (os_Stat (index_File e)))) (fst (main e fl))"
    if "lib_abort e (index_Open (index_File e)) = None"
  proof -
    have t: "fst (main e fl) = profileStart fl @ Lib (index_Open (index_File e))
               # fst (build e fl (Paths e (index_File e)))
               @ (if snd (body e fl) = Aborted OsExit then [] else profileStop fl)"
      using that by (simp add: m(1) b)
    show ?thesis
      using Stat_in_build [of e fl "Paths e (index_File e)"]
      by (simp add: precedes_def t pos_append_notin [OF profileStart_Lib]
          pos_append_notin [OF profileStart_Stat] pos_Cons)
  qed
  have 4: "main e fl =
            (profileStart fl @ [Lib (index_Open (index_File e))]
               @ (if a = OsExit then [] else profileStop fl), Aborted a)"
    if "lib_abort e (index_Open (index_File e)) = Some a" for a
    using that m by (auto simp: b sb prod_eq_iff)
  from 1 2 3 4 show ?thesis by blast
qed

theorem no_args_opens_master_before_stat_witness:
  "args flagsNoArgs = [] \<and> \<not> listFlag flagsNoArgs \<and> \<not> resetFlag flagsNoArgs
   \<and> os_err envNoIndex (os_Stat (index_File envNoIndex)) \<noteq> None
   \<and> lib_abort envNoIndex (index_Open (index_File envNoIndex)) = Some OsExit
   \<and> main envNoIndex flagsNoArgs = ([Lib (index_Open ''/idx'')], Aborted OsExit)
   \<and> precedes (Lib (index_Open ''/idx'')) (Os (os_Stat ''/idx'') None)
        (fst (main envPlain flagsNoArgs))"
proof -
  have h: "args flagsNoArgs = []" "\<not> listFlag flagsNoArgs" "\<not> resetFlag flagsNoArgs"
    and p: "cpuProfile flagsNoArgs \<noteq> [] \<longrightarrow> os_err envNoIndex (os_Create (cpuProfile flagsNoArgs)) = None"
      "cpuProfile flagsNoArgs \<noteq> [] \<longrightarrow> os_err envPlain (os_Create (cpuProfile flagsNoArgs)) = None"
    and c: "cpuProfile flagsNoArgs = []"
    by (simp_all add: flagsNoArgs_def flagsSrc_def)
  have e: "os_err envNoIndex (os_Stat (index_File envNoIndex)) \<noteq> None"
      "lib_abort envNoIndex (index_Open (index_File envNoIndex)) = Some OsExit"
      "lib_abort envPlain (index_Open (index_File envPlain)) = None"
      "os_err envPlain (os_Stat (index_File envPlain)) = None"
    and m: "index_File envNoIndex = ''/idx''" "index_File envPlain = ''/idx''"
    by (simp_all add: envNoIndex_def envPlain_def noIndexErr_def noIndexAbort_def noAbort_def noErr_def)
  show ?thesis
    using no_args_opens_master_before_stat [OF h p(1)] no_args_opens_master_before_stat [OF h p(2)]
      h e
    by (simp add: m profileStart_def c)
qed

section \<open>The profile\<close>

lemma walkEvent_bodyEvent: "walkEvent f ev \<Longrightarrow> bodyEvent ev"
  by (induction f ev rule: walkEvent.induct) simp_all

lemma walked_bodyEvents: "list_all bodyEvent (fst (walked e v res f roots))"
  using walked_events [of f e v res roots] by (auto simp: list_all_iff dest: walkEvent_bodyEvent)

lemma reported_bodyEvents: "list_all bodyEvent (concat (map (reported A) as))"
  by (induction as) (auto simp: reported_def split: sum.splits)

lemma indexing_bodyEvents: "list_all bodyEvent (fst (indexing e fl res roots))"
  by (simp add: indexing_def run_simps fst_walkRoots fst_finish walked_bodyEvents)

lemma build_bodyEvents: "list_all bodyEvent (fst (build e fl as))"
  by (cases "compileAll (regexp_Compile e) (excludePatterns fl)")
    (simp_all add: build_Inl build_Inr reported_bodyEvents indexing_bodyEvents)

lemma body_bodyEvents: "list_all bodyEvent (fst (body e fl))"
  by (simp add: body_def run_simps build_bodyEvents)

text \<open>
  C9, as the code has it. With the list flag off and the profile file created, the run
  begins with the creation of the profile file and the start of the profile, before any
  other work (the reset without paths included); the body that follows leaves only log
  lines, panics, library calls and calls into package \<^verbatim>\<open>os\<close> other than
  \<^verbatim>\<open>os.Create\<close>; and the profile is stopped and its file closed last, whenever the
  process ends by returning from \<^verbatim>\<open>main\<close> or by a panic. A process that ends through
  \<^verbatim>\<open>os.Exit\<close> runs no deferred call. With the list flag the profile is never started.
\<close>

theorem profile_wraps_body:
  "(\<not> listFlag fl \<and> cpuProfile fl \<noteq> [] \<and> os_err e (os_Create (cpuProfile fl)) = None \<longrightarrow>
      fst (main e fl) =
        [Os (os_Create (cpuProfile fl)) None, StartCPUProfile (cpuProfile fl)] @ fst (body e fl)
        @ (if snd (main e fl) = Aborted OsExit then []
           else [StopCPUProfile (cpuProfile fl), Close (cpuProfile fl)])
      \<and> snd (main e fl) = snd (body e fl)
      \<and> list_all bodyEvent (fst (body e fl)))
   \<and> (listFlag fl \<longrightarrow> (\<forall>p. StartCPUProfile p \<notin> set (fst (main e fl))))"
  by (auto simp: main_def run_simps body_bodyEvents)

theorem profile_wraps_body_witness:
  "\<not> listFlag flagsBadPattern \<and> cpuProfile flagsBadPattern \<noteq> []
   \<and> os_err envPlain (os_Create (cpuProfile flagsBadPattern)) = None
   \<and> fst (main envPlain flagsBadPattern) =
       [Os (os_Create ''/tmp/prof'') None, StartCPUProfile ''/tmp/prof'',
        Os (os_Stat ''/idx'') None, Panic ''missing closing )'',
        StopCPUProfile ''/tmp/prof'', Close ''/tmp/prof'']
   \<and> listFlag flagsListProfile
   \<and> StartCPUProfile ''/tmp/prof'' \<notin> set (fst (main envPlain flagsListProfile))"
proof -
  have h: "\<not> listFlag flagsBadPattern" "cpuProfile flagsBadPattern \<noteq> []"
      "os_err envPlain (os_Create (cpuProfile flagsBadPattern)) = None"
      "listFlag flagsListProfile"
    and c: "cpuProfile flagsBadPattern = ''/tmp/prof''"
    by (simp_all add: flagsBadPattern_def flagsListProfile_def flagsSrc_def envPlain_def noErr_def)
  have b: "body envPlain flagsBadPattern =
      ([Os (os_Stat ''/idx'') None, Panic ''missing closing )''], Aborted GoPanic)"
    by code_simp
  show ?thesis
    using profile_wraps_body [of flagsBadPattern envPlain] profile_wraps_body [of flagsListProfile envPlain] h
    by (simp add: b c)
qed

text \<open>
  C9 as stated fails: the list flag is handled at line 93, before the profile is set up
  at line 101, so a listing run with profiling asked for opens the index and prints its
  paths without ever starting the profile.
\<close>

theorem list_run_is_not_profiled:
  "cpuProfile flagsListProfile \<noteq> []
   \<and> main envPlain flagsListProfile
       = ([Lib (index_Open ''/idx''), Print (''/w/src'' @ [CHR 0x0A])], Returned)"
  by code_simp

section \<open>Patterns that do not compile\<close>

lemma walked_Panic: "Panic s \<in> set (fst (walked e v res f roots)) \<Longrightarrow> s = nilDereference"
  using walked_events [of f e v res roots] by (auto simp: list_all_iff nilDereference_def)

lemma reported_Panic1: "Panic s \<notin> set (reported A x)"
  by (simp add: reported_def split: sum.splits)

lemma indexing_Panic: "Panic s \<in> set (fst (indexing e fl res roots)) \<Longrightarrow> s = nilDereference"
  by (auto simp: indexing_def run_simps fst_walkRoots fst_finish dest: walked_Panic split: if_splits)

lemma build_Panic:
  "compileAll (regexp_Compile e) (excludePatterns fl) = Inr res \<Longrightarrow>
   Panic s \<in> set (fst (build e fl as)) \<Longrightarrow> s = nilDereference"
  by (auto simp: build_Inr reported_Panic1 dest: indexing_Panic)

lemma body_Panic:
  "compileAll (regexp_Compile e) (excludePatterns fl) = Inr res \<Longrightarrow>
   Panic s \<in> set (fst (body e fl)) \<Longrightarrow> s = nilDereference"
  by (auto simp: body_def run_simps dest: build_Panic split: if_splits)

lemma main_Panic_body: "Panic s \<in> set (fst (main e fl)) \<Longrightarrow> \<not> listFlag fl \<and> Panic s \<in> set (fst (body e fl))"
  by (auto simp: main_def run_simps split: if_splits option.splits)

text \<open>
  C4, as the code has it. In a build run (no list flag, not a reset without paths) whose
  profile file could be created and whose recorded paths could be read, a pattern that
  does not compile makes the run panic at line 153: after the profile has started, the
  index was opened for its paths (when no path was given), the paths were made absolute
  and the master was looked for with \<^verbatim>\<open>os.Stat\<close>, and before the staging index is
  created or any root is walked. Up to the panic no file but the profile is written.
  When all patterns compile, the only panic a run can raise is the nil dereference of
  the walk callback. With the list flag, or a reset without paths, a run never compiles
  the patterns and never panics.
\<close>

theorem bad_pattern_panics_before_indexing:
  "(compileAll (regexp_Compile e) (excludePatterns fl) = Inl err
      \<and> \<not> listFlag fl \<and> \<not> (resetFlag fl \<and> args fl = [])
      \<and> (args fl = [] \<longrightarrow> lib_abort e (index_Open (index_File e)) = None)
      \<and> (cpuProfile fl \<noteq> [] \<longrightarrow> os_err e (os_Create (cpuProfile fl)) = None)
    \<longrightarrow> main e fl =
          (profileStart fl
             @ (if args fl = [] then [Lib (index_Open (index_File e))] else [])
             @ concat (map (reported (filepath_Abs e)) (givenArgs e fl))
             @ [Os (os_Stat (index_File e)) (os_err e (os_Stat (index_File e))), Panic err]
             @ profileStop fl,
           Aborted GoPanic)
        \<and> (\<forall>p. p \<noteq> cpuProfile fl \<longrightarrow> touching p (fst (main e fl)) = []))
   \<and> (compileAll (regexp_Compile e) (excludePatterns fl) = Inr res
        \<longrightarrow> (\<forall>s. Panic s \<in> set (fst (main e fl)) \<longrightarrow> s = nilDereference))
   \<and> (listFlag fl \<or> (resetFlag fl \<and> args fl = [])
        \<longrightarrow> (\<forall>s. Panic s \<notin> set (fst (main e fl))))"
proof (intro conjI impI)
  assume a: "compileAll (regexp_Compile e) (excludePatterns fl) = Inl err
      \<and> \<not> listFlag fl \<and> \<not> (resetFlag fl \<and> args fl = [])
      \<and> (args fl = [] \<longrightarrow> lib_abort e (index_Open (index_File e)) = None)
      \<and> (cpuProfile fl \<noteq> [] \<longrightarrow> os_err e (os_Create (cpuProfile fl)) = None)"
  then have m: "fst (main e fl) =
           profileStart fl @ fst (body e fl)
           @ (if snd (body e fl) = Aborted OsExit then [] else profileStop fl)"
      "snd (main e fl) = snd (body e fl)"
    using main_profiled [of fl e] by simp_all
  have b: "body e fl =
      ((if args fl = [] then [Lib (index_Open (index_File e))] else [])
         @ concat (map (reported (filepath_Abs e)) (givenArgs e fl))
         @ [Os (os_Stat (index_File e)) (os_err e (os_Stat (index_File e))), Panic err],
       Aborted GoPanic)"
    using a by (auto simp: body_def build_Inl givenArgs_def call_def emit_def)
  show t: "main e fl =
          (profileStart fl
             @ (if args fl = [] then [Lib (index_Open (index_File e))] else [])
             @ concat (map (reported (filepath_Abs e)) (givenArgs e fl))
             @ [Os (os_Stat (index_File e)) (os_err e (os_Stat (index_File e))), Panic err]
             @ profileStop fl,
           Aborted GoPanic)"
    using m by (simp add: b prod_eq_iff)
  show "\<forall>p. p \<noteq> cpuProfile fl \<longrightarrow> touching p (fst (main e fl)) = []"
    by (auto simp: t touching_append touching_Cons touching_Nil touching_reported
        profileStart_def profileStop_def)
next
  assume "compileAll (regexp_Compile e) (excludePatterns fl) = Inr res"
  then show "\<forall>s. Panic s \<in> set (fst (main e fl)) \<longrightarrow> s = nilDereference"
    using main_Panic_body body_Panic by blast
next
  assume "listFlag fl \<or> (resetFlag fl \<and> args fl = [])"
  then show "\<forall>s. Panic s \<notin> set (fst (main e fl))"
    by (auto simp: main_def body_def run_simps split: option.splits if_splits)
qed

theorem bad_pattern_panics_before_indexing_witness:
  "compileAll (regexp_Compile envPlain) (excludePatterns flagsBadPattern) = Inl ''missing closing )''
   \<and> \<not> listFlag flagsBadPattern \<and> \<not> (resetFlag flagsBadPattern \<and> args flagsBadPattern = [])
   \<and> main envPlain flagsBadPattern =
       ([Os (os_Create ''/tmp/prof'') None, StartCPUProfile ''/tmp/prof'',
         Os (os_Stat ''/idx'') None, Panic ''missing closing )'',
         StopCPUProfile ''/tmp/prof'', Close ''/tmp/prof''], Aborted GoPanic)
   \<and> touching ''/idx'' (fst (main envPlain flagsBadPattern)) = []
   \<and> compileAll (regexp_Compile envPlain) (excludePatterns flagsMissing)
       = Inr [matchNothing, matchNothing, matchNothing, matchNothing, matchNothing, matchNothing]
   \<and> Panic nilDereference \<in> set (fst (main envPlain flagsMissing))
   \<and> resetFlag flagsResetOnlyBadPattern \<and> args flagsResetOnlyBadPattern = []
   \<and> Panic ''missing closing )'' \<notin> set (fst (main envPlain flagsResetOnlyBadPattern))"
proof -
  have c1: "compileAll (regexp_Compile envPlain) (excludePatterns flagsBadPattern) = Inl ''missing closing )''"
    and c2: "compileAll (regexp_Compile envPlain) (excludePatterns flagsMissing)
       = Inr [matchNothing, matchNothing, matchNothing, matchNothing, matchNothing, matchNothing]"
    by (simp_all add: envPlain_def excludePatterns_def baseline_def flagsBadPattern_def
        flagsMissing_def flagsSrc_def compileStub_def)
  have h: "\<not> listFlag flagsBadPattern" "\<not> (resetFlag flagsBadPattern \<and> args flagsBadPattern = [])"
      "args flagsBadPattern \<noteq> []" "cpuProfile flagsBadPattern = ''/tmp/prof''"
      "os_err envPlain (os_Create ''/tmp/prof'') = None"
      "resetFlag flagsResetOnlyBadPattern" "args flagsResetOnlyBadPattern = []"
      "givenArgs envPlain flagsBadPattern = [''src'']"
      "index_File envPlain = ''/idx''" "os_err envPlain (os_Stat ''/idx'') = None"
      "filepath_Abs envPlain = absUnder ''/w''"
    by (simp_all add: flagsBadPattern_def flagsResetOnlyBadPattern_def flagsSrc_def envPlain_def
        noErr_def givenArgs_def)
  have p: "Panic nilDereference \<in> set (fst (main envPlain flagsMissing))"
    unfolding nilDereference_def by code_simp
  show ?thesis
    using bad_pattern_panics_before_indexing [of envPlain flagsBadPattern "''missing closing )''"]
      bad_pattern_panics_before_indexing [of envPlain flagsMissing _
        "[matchNothing, matchNothing, matchNothing, matchNothing, matchNothing, matchNothing]"]
      bad_pattern_panics_before_indexing [of envPlain flagsResetOnlyBadPattern]
      c1 c2 h p
    by (simp add: profileStart_def profileStop_def reported_def absUnder_def
        touching_Cons touching_Nil)
qed

text \<open>
  C4 as stated fails: a reset without paths returns at line 113, before the patterns are
  compiled at line 151, so with a malformed pattern the run removes the master index and
  ends with status 0.
\<close>

theorem reset_without_paths_never_compiles:
  "compileAll (regexp_Compile envPlain) (excludePatterns flagsResetOnlyBadPattern)
     = Inl ''missing closing )''
   \<and> main envPlain flagsResetOnlyBadPattern = ([Os (os_Remove ''/idx'') None], Returned)
   \<and> exit_code (snd (main envPlain flagsResetOnlyBadPattern)) = 0"
proof -
  have a: "compileAll (regexp_Compile envPlain) (excludePatterns flagsResetOnlyBadPattern)
     = Inl ''missing closing )''"
    by (simp add: envPlain_def excludePatterns_def baseline_def flagsResetOnlyBadPattern_def
        flagsSrc_def compileStub_def)
  have b: "main envPlain flagsResetOnlyBadPattern = ([Os (os_Remove ''/idx'') None], Returned)"
    by code_simp
  show ?thesis
    by (simp add: a b)
qed

section \<open>Failures of the flush, the merge, the removal and the rename\<close>

lemma exit_code_nonzero: "0 < exit_code r \<longleftrightarrow> r \<noteq> Returned"
  by (cases r rule: exit_code.cases) simp_all

lemma indexing_Returned_flush:
  "snd (indexing e fl res roots) = Returned \<Longrightarrow> lib_abort e (ix_Flush (stagingFile e fl)) = None"
  by (auto simp: indexing_def run_simps snd_walkRoots split: option.splits if_splits)

lemma finish_Returned_merge:
  "snd (finish e False m f) = Returned \<Longrightarrow> lib_abort e (index_Merge (f @ ''~'') m f) = None"
  by (simp add: snd_finish split: option.splits)

lemma main_Returned_calls:
  assumes "\<not> listFlag fl" and "\<not> (resetFlag fl \<and> args fl = [])" and "snd (main e fl) = Returned"
  shows "lib_abort e (ix_Flush (stagingFile e fl)) = None"
    and "\<not> resetMode e fl \<Longrightarrow>
         lib_abort e (index_Merge (index_File e @ ''~~'') (index_File e) (index_File e @ ''~'')) = None"
proof -
  note m = main_Returned [OF assms(1,3)]
  note b = body_Returned [OF assms(2) m(1)]
  from b(1) obtain res where
    i: "snd (indexing e fl res (resolve (filepath_Abs e) (givenArgs e fl))) = Returned"
    by (rule build_Returned)
  show "lib_abort e (ix_Flush (stagingFile e fl)) = None"
    using i by (rule indexing_Returned_flush)
  show "lib_abort e (index_Merge (index_File e @ ''~~'') (index_File e) (index_File e @ ''~'')) = None"
    if "\<not> resetMode e fl"
    using indexing_Returned(2) [OF i] that finish_Returned_merge [of e "index_File e" "index_File e @ ''~''"]
    by (simp add: stagingFile_incremental)
qed

lemma touching_indexing_Returned:
  assumes "\<not> resetMode e fl" and "touching (index_File e) (fst (indexing e fl res roots)) \<noteq> []"
  shows "snd (indexing e fl res roots) = Returned"
proof -
  have w: "touching (index_File e) (fst (walked e (verboseFlag fl) res (index_File e @ ''~'') roots)) = []"
    by (rule touching_walked) simp
  show ?thesis
    using assms w
    by (auto simp: indexing_def stagingFile_incremental run_simps fst_walkRoots snd_walkRoots
        fst_finish snd_finish touching_Nil touching_Cons touching_append
        split: if_splits option.splits)
qed

lemma touching_build_Returned:
  assumes "\<not> resetMode e fl" and "touching (index_File e) (fst (build e fl as)) \<noteq> []"
  shows "snd (build e fl as) = Returned"
proof (cases "compileAll (regexp_Compile e) (excludePatterns fl)")
  case (Inl err)
  with assms(2) show ?thesis
    by (simp add: build_Inl touching_Nil touching_Cons touching_append touching_reported)
next
  case (Inr res)
  with assms(2) touching_indexing_Returned [OF assms(1), of res "resolve (filepath_Abs e) as"]
  show ?thesis
    by (simp add: build_Inr touching_Nil touching_Cons touching_append touching_reported)
qed

lemma touching_body_Returned:
  assumes "\<not> resetMode e fl" and "touching (index_File e) (fst (body e fl)) \<noteq> []"
  shows "snd (body e fl) = Returned"
  using assms(2) touching_build_Returned [OF assms(1), of "args fl"]
    touching_build_Returned [OF assms(1), of "Paths e (index_File e)"]
    resetMode_resetFlag [OF assms(1)]
  by (auto simp: body_def run_simps touching_Nil touching_Cons touching_append
      split: if_splits option.splits)

lemma touching_main_Returned:
  assumes "\<not> listFlag fl" and "\<not> resetMode e fl" and "cpuProfile fl \<noteq> index_File e"
    and "touching (index_File e) (fst (main e fl)) \<noteq> []"
  shows "snd (main e fl) = Returned"
  using assms(1,3,4) touching_body_Returned [OF assms(2)]
  by (auto simp: main_def run_simps touching_Nil touching_Cons touching_append
      split: if_splits option.splits)

lemma walkFn_os_err: "walkFn (e\<lparr>os_err := f\<rparr>) = walkFn e"
  by (intro ext) (simp add: walkFn_def Let_def split: option.splits)

lemma walkRoots_os_err:
  "walkRoots (e\<lparr>os_err := f\<rparr>) v res file roots k = walkRoots e v res file roots k"
  by (induction roots) (simp_all add: walkFn_os_err)

lemma walked_os_err: "walked (e\<lparr>os_err := f\<rparr>) v res file roots = walked e v res file roots"
  by (simp add: walked_def walkRoots_os_err)

lemma snd_indexing_os_err:
  assumes "f (os_Stat (index_File e)) = os_err e (os_Stat (index_File e))"
  shows "snd (indexing (e\<lparr>os_err := f\<rparr>) fl res roots) = snd (indexing e fl res roots)"
proof -
  have r: "resetMode (e\<lparr>os_err := f\<rparr>) fl = resetMode e fl"
    using assms by (simp add: resetMode_def)
  then have s: "stagingFile (e\<lparr>os_err := f\<rparr>) fl = stagingFile e fl"
    by (simp add: stagingFile_def)
  show ?thesis
    by (simp add: indexing_def run_simps snd_walkRoots snd_finish r s walked_os_err
        split: option.splits)
qed

lemma snd_build_os_err:
  assumes "f (os_Stat (index_File e)) = os_err e (os_Stat (index_File e))"
  shows "snd (build (e\<lparr>os_err := f\<rparr>) fl as) = snd (build e fl as)"
  using snd_indexing_os_err [where f = f and e = e, OF assms]
  by (cases "compileAll (regexp_Compile e) (excludePatterns fl)")
    (simp_all add: build_def run_simps)

lemma snd_body_os_err:
  assumes "f (os_Stat (index_File e)) = os_err e (os_Stat (index_File e))"
  shows "snd (body (e\<lparr>os_err := f\<rparr>) fl) = snd (body e fl)"
  using snd_build_os_err [where f = f and e = e, OF assms]
  by (simp add: body_def run_simps split: option.splits)

text \<open>
  C5, as the code has it. \<^verbatim>\<open>ix.Flush\<close> and \<^verbatim>\<open>index.Merge\<close> return nothing to
  \<^verbatim>\<open>main\<close>, so a failure there can only end the process inside the library. When the
  flush, or in an incremental run the merge, does not return, a build run ends with a
  status other than 0. An incremental run that ends with a status other than 0 has
  written nothing at the master's path (the profile being elsewhere): the rename was not
  reached. The errors of \<^verbatim>\<open>os.Remove\<close> and \<^verbatim>\<open>os.Rename\<close> are dropped at lines 210 and
  211: whatever they are, the run ends the same way.
\<close>

theorem flush_or_merge_abort_is_fatal:
  "(\<not> listFlag fl \<and> \<not> (resetFlag fl \<and> args fl = [])
      \<and> (lib_abort e (ix_Flush (stagingFile e fl)) \<noteq> None
         \<or> (\<not> resetMode e fl \<and>
             lib_abort e (index_Merge (index_File e @ ''~~'') (index_File e) (index_File e @ ''~''))
               \<noteq> None))
    \<longrightarrow> exit_code (snd (main e fl)) \<noteq> 0)
   \<and> (\<not> listFlag fl \<and> \<not> resetMode e fl \<and> cpuProfile fl \<noteq> index_File e
        \<and> exit_code (snd (main e fl)) \<noteq> 0
    \<longrightarrow> touching (index_File e) (fst (main e fl)) = [])
   \<and> (f (os_Stat (index_File e)) = os_err e (os_Stat (index_File e))
        \<and> f (os_Create (cpuProfile fl)) = os_err e (os_Create (cpuProfile fl))
    \<longrightarrow> snd (main (e\<lparr>os_err := f\<rparr>) fl) = snd (main e fl))"
proof (intro conjI impI)
  assume a: "\<not> listFlag fl \<and> \<not> (resetFlag fl \<and> args fl = [])
      \<and> (lib_abort e (ix_Flush (stagingFile e fl)) \<noteq> None
         \<or> (\<not> resetMode e fl \<and>
             lib_abort e (index_Merge (index_File e @ ''~~'') (index_File e) (index_File e @ ''~''))
               \<noteq> None))"
  have "snd (main e fl) \<noteq> Returned"
  proof
    assume r: "snd (main e fl) = Returned"
    from a have 1: "\<not> listFlag fl" and 2: "\<not> (resetFlag fl \<and> args fl = [])" by simp_all
    from main_Returned_calls [OF 1 2 r] a show False by blast
  qed
  then show "exit_code (snd (main e fl)) \<noteq> 0"
    by (simp add: exit_code_nonzero)
next
  assume a: "\<not> listFlag fl \<and> \<not> resetMode e fl \<and> cpuProfile fl \<noteq> index_File e
        \<and> exit_code (snd (main e fl)) \<noteq> 0"
  then have "snd (main e fl) \<noteq> Returned"
    by (simp add: exit_code_nonzero)
  with a touching_main_Returned [of fl e] show "touching (index_File e) (fst (main e fl)) = []"
    by blast
next
  assume a: "f (os_Stat (index_File e)) = os_err e (os_Stat (index_File e))
        \<and> f (os_Create (cpuProfile fl)) = os_err e (os_Create (cpuProfile fl))"
  then have b: "snd (body (e\<lparr>os_err := f\<rparr>) fl) = snd (body e fl)"
    by (simp add: snd_body_os_err)
  from a b show "snd (main (e\<lparr>os_err := f\<rparr>) fl) = snd (main e fl)"
    by (simp add: main_def run_simps split: option.splits)
qed

theorem flush_or_merge_abort_is_fatal_witness:
  "\<not> listFlag flagsSrc \<and> \<not> (resetFlag flagsSrc \<and> args flagsSrc = [])
   \<and> \<not> resetMode envMergeFails flagsSrc
   \<and> lib_abort envMergeFails
        (index_Merge (index_File envMergeFails @ ''~~'') (index_File envMergeFails)
           (index_File envMergeFails @ ''~'')) = Some OsExit
   \<and> cpuProfile flagsSrc \<noteq> index_File envMergeFails
   \<and> exit_code (snd (main envMergeFails flagsSrc)) = 1
   \<and> touching (index_File envMergeFails) (fst (main envMergeFails flagsSrc)) = []
   \<and> snd (main (envPlain\<lparr>os_err := renameErr\<rparr>) flagsSrc) = Returned"
proof -
  have h: "\<not> listFlag flagsSrc" "\<not> (resetFlag flagsSrc \<and> args flagsSrc = [])"
      "\<not> resetMode envMergeFails flagsSrc"
      "lib_abort envMergeFails
        (index_Merge (index_File envMergeFails @ ''~~'') (index_File envMergeFails)
           (index_File envMergeFails @ ''~'')) = Some OsExit"
      "cpuProfile flagsSrc \<noteq> index_File envMergeFails"
      "renameErr (os_Stat (index_File envPlain)) = os_err envPlain (os_Stat (index_File envPlain))"
      "renameErr (os_Create (cpuProfile flagsSrc)) = os_err envPlain (os_Create (cpuProfile flagsSrc))"
    by (simp_all add: flagsSrc_def envMergeFails_def envPlain_def resetMode_def noErr_def
        mergeAbort_def renameErr_def)
  have x: "exit_code (snd (main envMergeFails flagsSrc)) = 1"
    and y: "snd (main envPlain flagsSrc) = Returned"
    by code_simp+
  show ?thesis
    using flush_or_merge_abort_is_fatal [of flagsSrc envMergeFails]
      flush_or_merge_abort_is_fatal [of flagsSrc envPlain renameErr] h x y
    by simp
qed

text \<open>
  C5 as stated fails: when the removal of the staging index and the rename onto the
  master both return an error, the run logs its last line and returns with status 0.
\<close>

theorem failed_rename_is_ignored:
  "fst (main envRenameFails flagsSrc) =
     [Os (os_Stat ''/idx'') None, Lib (index_Create ''/idx~''),
      Lib (ix_AddPaths ''/idx~'' [''/w/src'']), Log ''index /w/src'',
      Lib (ix_AddFile ''/idx~'' ''/w/src/a.go''),
      Log ''/w/src/sub: open /w/src/sub: permission denied'',
      Lib (ix_AddFile ''/idx~'' ''/w/src/z.go''), Log ''flush index'',
      Lib (ix_Flush ''/idx~''), Log ''merge /idx /idx~'',
      Lib (index_Merge ''/idx~~'' ''/idx'' ''/idx~''),
      Os (os_Remove ''/idx~'') (Some ''remove /idx~: permission denied''),
      Os (os_Rename ''/idx~~'' ''/idx'') (Some ''rename: invalid cross-device link''),
      Log ''done'']
   \<and> snd (main envRenameFails flagsSrc) = Returned
   \<and> exit_code (snd (main envRenameFails flagsSrc)) = 0"
  by code_simp

end
